theory Spec2Isabelle
  imports Complex_Main
begin

section \<open>Tensor entries\<close>

text \<open>
  The entries of a torch tensor are floating-point numbers. They are modelled as exact
  reals together with the three special values a float division can produce: rounding,
  overflow and the sign of zero are abstracted away, the values \<open>inf\<close>, \<open>-inf\<close> and
  \<open>nan\<close> are kept, because torch never raises on a division by zero.
\<close>

datatype fl = Fin real | PInf | NInf | NaN



instantiation fl :: "{plus, uminus, minus, times, inverse}"
begin

fun plus_fl :: "fl \<Rightarrow> fl \<Rightarrow> fl" where
  "plus_fl (Fin a) (Fin b) = Fin (a + b)"
| "plus_fl NaN _ = NaN"
| "plus_fl _ NaN = NaN"
| "plus_fl PInf NInf = NaN"
| "plus_fl NInf PInf = NaN"
| "plus_fl PInf _ = PInf"
| "plus_fl _ PInf = PInf"
| "plus_fl NInf _ = NInf"
| "plus_fl _ NInf = NInf"

fun uminus_fl :: "fl \<Rightarrow> fl" where
  "uminus_fl (Fin a) = Fin (- a)"
| "uminus_fl PInf = NInf"
| "uminus_fl NInf = PInf"
| "uminus_fl NaN = NaN"

definition minus_fl :: "fl \<Rightarrow> fl \<Rightarrow> fl" where
  "minus_fl x y = x + (- y)"

fun times_fl :: "fl \<Rightarrow> fl \<Rightarrow> fl" where
  "times_fl (Fin a) (Fin b) = Fin (a * b)"
| "times_fl NaN _ = NaN"
| "times_fl _ NaN = NaN"
| "times_fl PInf (Fin b) = (if b = 0 then NaN else if 0 < b then PInf else NInf)"
| "times_fl NInf (Fin b) = (if b = 0 then NaN else if 0 < b then NInf else PInf)"
| "times_fl (Fin a) PInf = (if a = 0 then NaN else if 0 < a then PInf else NInf)"
| "times_fl (Fin a) NInf = (if a = 0 then NaN else if 0 < a then NInf else PInf)"
| "times_fl PInf PInf = PInf"
| "times_fl PInf NInf = NInf"
| "times_fl NInf PInf = NInf"
| "times_fl NInf NInf = PInf"

fun divide_fl :: "fl \<Rightarrow> fl \<Rightarrow> fl" where
  "divide_fl (Fin a) (Fin b) =
     (if b = 0 then (if a = 0 then NaN else if 0 < a then PInf else NInf)
      else Fin (a / b))"
| "divide_fl NaN _ = NaN"
| "divide_fl _ NaN = NaN"
| "divide_fl (Fin a) PInf = Fin 0"
| "divide_fl (Fin a) NInf = Fin 0"
| "divide_fl PInf (Fin b) = (if 0 \<le> b then PInf else NInf)"
| "divide_fl NInf (Fin b) = (if 0 \<le> b then NInf else PInf)"
| "divide_fl PInf PInf = NaN"
| "divide_fl PInf NInf = NaN"
| "divide_fl NInf PInf = NaN"
| "divide_fl NInf NInf = NaN"

fun inverse_fl :: "fl \<Rightarrow> fl" where
  "inverse_fl (Fin b) = (if b = 0 then PInf else Fin (1 / b))"
| "inverse_fl PInf = Fin 0"
| "inverse_fl NInf = Fin 0"
| "inverse_fl NaN = NaN"

instance ..

end

type_synonym vec = "fl list"
type_synonym mat = "fl list list"

text \<open>
  A tensor of rank 0, 1 or 2. A rank-2 tensor is the list of its rows, all of one length;
  a list of rows has no column count of its own when it is empty, so the rank-2 tensors
  the model represents are those with at least one row, and the empty one of shape
  \<open>(0, 0)\<close>.
\<close>

datatype tensor = T0 fl | T1 vec | T2 mat

section \<open>Exceptions\<close>

text \<open>
  Every exception the Python code can raise is a value. The constructors name the Python
  exception class and, for torch's \<open>RuntimeError\<close>, the condition that raises it.
\<close>

datatype error =
    IndexError
  | ZeroDivisionError
  | Exception_invalid_memristor_model
  | TypeError_none_not_tensor
  | RuntimeError_negative_dimension
  | RuntimeError_size_mismatch
  | RuntimeError_matmul_0D
  | RuntimeError_empty_cat
  | RuntimeError_invalid_view
  | RuntimeError_singular

definition ebind :: "error + 'a \<Rightarrow> ('a \<Rightarrow> error + 'b) \<Rightarrow> error + 'b" where
  "ebind r f = (case r of Inl e \<Rightarrow> Inl e | Inr x \<Rightarrow> f x)"

text \<open>A list comprehension whose body can raise: the first exception, left to right, wins.\<close>

fun emap :: "('a \<Rightarrow> error + 'b) \<Rightarrow> 'a list \<Rightarrow> error + 'b list" where
  "emap f [] = Inr []"
| "emap f (x # xs) =
     (case f x of
        Inl e \<Rightarrow> Inl e
      | Inr y \<Rightarrow> (case emap f xs of Inl e \<Rightarrow> Inl e | Inr ys \<Rightarrow> Inr (y # ys)))"

section \<open>The torch operations the crossbar uses\<close>

definition nrows :: "mat \<Rightarrow> nat" where
  "nrows A = length A"

definition ncols :: "mat \<Rightarrow> nat" where
  "ncols A = (case A of [] \<Rightarrow> 0 | r # _ \<Rightarrow> length r)"

definition column :: "mat \<Rightarrow> nat \<Rightarrow> vec" where
  "column A j = map (\<lambda>r. r ! j) A"

text \<open>\<open>torch.t\<close> of a rank-2 tensor.\<close>

definition transpose_mat :: "mat \<Rightarrow> mat" where
  "transpose_mat A = map (column A) [0..<ncols A]"

text \<open>\<open>torch.zeros(k)\<close> and \<open>torch.ones(k)\<close> raise on a negative size.\<close>

definition zeros :: "int \<Rightarrow> error + vec" where
  "zeros k = (if k < 0 then Inl RuntimeError_negative_dimension
              else Inr (replicate (nat k) (Fin 0)))"

definition ones :: "int \<Rightarrow> error + vec" where
  "ones k = (if k < 0 then Inl RuntimeError_negative_dimension
             else Inr (replicate (nat k) (Fin 1)))"

definition zeros2 :: "nat \<Rightarrow> nat \<Rightarrow> mat" where
  "zeros2 r c = replicate r (replicate c (Fin 0))"

definition fl_sum :: "vec \<Rightarrow> fl" where
  "fl_sum xs = foldr (+) xs (Fin 0)"

definition dot :: "vec \<Rightarrow> vec \<Rightarrow> fl" where
  "dot a b = fl_sum (map2 (*) a b)"

definition matmul2 :: "mat \<Rightarrow> mat \<Rightarrow> error + mat" where
  "matmul2 A B =
     (if ncols A = nrows B then Inr (map (\<lambda>r. map (dot r) (transpose_mat B)) A)
      else Inl RuntimeError_size_mismatch)"

text \<open>
  \<open>torch.matmul\<close> on tensors of rank at most 2: a rank-0 argument is refused, two vectors
  give their dot product as a rank-0 tensor, a matrix and a vector give a vector, and the
  contracted sizes must agree.
\<close>

fun matmul :: "tensor \<Rightarrow> tensor \<Rightarrow> error + tensor" where
  "matmul (T0 _) _ = Inl RuntimeError_matmul_0D"
| "matmul _ (T0 _) = Inl RuntimeError_matmul_0D"
| "matmul (T1 a) (T1 b) =
     (if length a = length b then Inr (T0 (dot a b)) else Inl RuntimeError_size_mismatch)"
| "matmul (T2 A) (T1 b) =
     (if ncols A = length b then Inr (T1 (map (\<lambda>r. dot r b) A))
      else Inl RuntimeError_size_mismatch)"
| "matmul (T1 a) (T2 B) =
     (if length a = nrows B then Inr (T1 (map (dot a) (transpose_mat B)))
      else Inl RuntimeError_size_mismatch)"
| "matmul (T2 A) (T2 B) =
     (case matmul2 A B of Inl e \<Rightarrow> Inl e | Inr C \<Rightarrow> Inr (T2 C))"

text \<open>
  \<open>torch.tensor\<close> of a nested list of rows and \<open>Tensor.squeeze()\<close>, which drops every
  dimension of size 1.
\<close>

definition tensor_of_rows :: "mat \<Rightarrow> tensor" where
  "tensor_of_rows rows = (if rows = [] then T1 [] else T2 rows)"

fun squeeze :: "tensor \<Rightarrow> tensor" where
  "squeeze (T0 x) = T0 x"
| "squeeze (T1 xs) = (if length xs = 1 then T0 (hd xs) else T1 xs)"
| "squeeze (T2 A) =
     (if nrows A = 1 \<and> ncols A = 1 then T0 (hd (hd A))
      else if nrows A = 1 then T1 (hd A)
      else if ncols A = 1 \<and> A \<noteq> [] then T1 (map hd A)
      else T2 A)"

text \<open>Python indexing of a sequence of length \<open>len\<close>: a negative index counts from the end.\<close>

definition py_index :: "nat \<Rightarrow> int \<Rightarrow> nat option" where
  "py_index len k =
     (if 0 \<le> k \<and> k < int len then Some (nat k)
      else if - int len \<le> k \<and> k < 0 then Some (nat (int len + k))
      else None)"

definition getv :: "'a list \<Rightarrow> int \<Rightarrow> error + 'a" where
  "getv xs k = (case py_index (length xs) k of None \<Rightarrow> Inl IndexError | Some i \<Rightarrow> Inr (xs ! i))"

text \<open>
  \<open>W[i, :]\<close>, \<open>W[:, j]\<close> and \<open>W[i, j]\<close>: two indices need a tensor of rank 2, and each
  index must be in range.
\<close>

fun index_row :: "tensor \<Rightarrow> int \<Rightarrow> error + vec" where
  "index_row (T2 A) i = getv A i"
| "index_row _ i = Inl IndexError"

fun index_col :: "tensor \<Rightarrow> int \<Rightarrow> error + vec" where
  "index_col (T2 A) j =
     (case py_index (ncols A) j of None \<Rightarrow> Inl IndexError | Some c \<Rightarrow> Inr (column A c))"
| "index_col _ j = Inl IndexError"

fun get2 :: "tensor \<Rightarrow> int \<Rightarrow> int \<Rightarrow> error + fl" where
  "get2 (T2 A) i j =
     (case (py_index (nrows A) i, py_index (ncols A) j) of
        (Some r, Some c) \<Rightarrow> Inr (A ! r ! c)
      | _ \<Rightarrow> Inl IndexError)"
| "get2 _ i j = Inl IndexError"

text \<open>The assignment \<open>d[i, j] = x\<close> on a rank-2 tensor.\<close>

definition set2 :: "mat \<Rightarrow> int \<Rightarrow> int \<Rightarrow> fl \<Rightarrow> error + mat" where
  "set2 d i j x =
     (case (py_index (nrows d) i, py_index (ncols d) j) of
        (Some r, Some c) \<Rightarrow> Inr (d[r := (d ! r)[c := x]])
      | _ \<Rightarrow> Inl IndexError)"

fun torch_t :: "tensor \<Rightarrow> tensor" where
  "torch_t (T2 A) = T2 (transpose_mat A)"
| "torch_t t = t"

text \<open>
  \<open>torch.diag(v, diagonal=k)\<close>: the square matrix of size \<open>len(v) + |k|\<close> with \<open>v\<close> on its
  \<open>k\<close>-th diagonal.
\<close>

definition diag_k :: "vec \<Rightarrow> int \<Rightarrow> mat" where
  "diag_k v k =
     (let s = length v + nat \<bar>k\<bar> in
      map (\<lambda>i. map (\<lambda>j. if int j - int i = k then v ! (min i j) else Fin 0) [0..<s]) [0..<s])"

definition diag :: "vec \<Rightarrow> mat" where
  "diag v = diag_k v 0"

text \<open>
  An elementwise operation on two matrices, with torch's broadcasting: the sizes of each
  dimension must agree, or one of them must be 1.
\<close>

definition bc_dim :: "nat \<Rightarrow> nat \<Rightarrow> nat option" where
  "bc_dim a b = (if a = b then Some a else if a = 1 then Some b else if b = 1 then Some a else None)"

definition bc2 :: "(fl \<Rightarrow> fl \<Rightarrow> fl) \<Rightarrow> mat \<Rightarrow> mat \<Rightarrow> error + mat" where
  "bc2 f A B =
     (case (bc_dim (nrows A) (nrows B), bc_dim (ncols A) (ncols B)) of
        (Some r, Some c) \<Rightarrow>
          Inr (map (\<lambda>i. map (\<lambda>j.
                 f (A ! (if nrows A = 1 then 0 else i) ! (if ncols A = 1 then 0 else j))
                   (B ! (if nrows B = 1 then 0 else i) ! (if ncols B = 1 then 0 else j)))
               [0..<c]) [0..<r])
      | _ \<Rightarrow> Inl RuntimeError_size_mismatch)"

definition mat_add :: "mat \<Rightarrow> mat \<Rightarrow> error + mat" where
  "mat_add = bc2 (+)"

definition mat_sub :: "mat \<Rightarrow> mat \<Rightarrow> error + mat" where
  "mat_sub = bc2 (-)"

definition mat_div :: "mat \<Rightarrow> mat \<Rightarrow> error + mat" where
  "mat_div = bc2 (/)"

definition mat_neg :: "mat \<Rightarrow> mat" where
  "mat_neg A = map (map uminus) A"

text \<open>A tensor of rank at most 2 as the matrix it broadcasts as (leading dimensions of size 1).\<close>

fun as_mat :: "tensor \<Rightarrow> mat" where
  "as_mat (T0 x) = [[x]]"
| "as_mat (T1 xs) = [xs]"
| "as_mat (T2 A) = A"

definition mat_mul_bc :: "mat \<Rightarrow> tensor \<Rightarrow> error + mat" where
  "mat_mul_bc A t = bc2 (*) A (as_mat t)"

text \<open>
  \<open>torch.block_diag\<close>: the blocks along the diagonal, zeros elsewhere; of no block at
  all, the empty tensor of shape \<open>(1, 0)\<close>.
\<close>

fun blocks_at :: "nat \<Rightarrow> nat \<Rightarrow> mat list \<Rightarrow> mat" where
  "blocks_at off tot [] = []"
| "blocks_at off tot (B # Bs) =
     map (\<lambda>r. replicate off (Fin 0) @ r @ replicate (tot - off - ncols B) (Fin 0)) B
     @ blocks_at (off + ncols B) tot Bs"

definition block_diag :: "mat list \<Rightarrow> mat" where
  "block_diag Bs = (if Bs = [] then [[]] else blocks_at 0 (sum_list (map ncols Bs)) Bs)"

text \<open>
  \<open>torch.cat\<close> of rank-2 tensors along dimension 0 (rows below rows) and along dimension
  1 (rows side by side), and of rank-1 tensors. An empty list is refused, and the other
  dimension must agree.
\<close>

definition cat0 :: "mat list \<Rightarrow> error + mat" where
  "cat0 Bs =
     (if Bs = [] then Inl RuntimeError_empty_cat
      else if list_all (\<lambda>B. ncols B = ncols (hd Bs)) Bs then Inr (concat Bs)
      else Inl RuntimeError_size_mismatch)"

definition cat1 :: "mat \<Rightarrow> mat \<Rightarrow> error + mat" where
  "cat1 A B =
     (if nrows A = nrows B then Inr (map2 (@) A B) else Inl RuntimeError_size_mismatch)"

definition cat_vecs :: "vec list \<Rightarrow> error + vec" where
  "cat_vecs vs = (if vs = [] then Inl RuntimeError_empty_cat else Inr (concat vs))"

text \<open>\<open>unsqueeze(1)\<close> of a vector: the column with these entries.\<close>

definition unsqueeze1 :: "vec \<Rightarrow> mat" where
  "unsqueeze1 v = map (\<lambda>x. [x]) v"

text \<open>
  \<open>Z.index_put((rows, cols), values)\<close>: entry \<open>(rows[k], cols[k])\<close> becomes \<open>values[k]\<close>;
  the values broadcast to the number of indices.
\<close>

fun put_all :: "mat \<Rightarrow> (nat \<times> nat \<times> fl) list \<Rightarrow> error + mat" where
  "put_all Z [] = Inr Z"
| "put_all Z ((r, c, x) # ps) =
     (if r < nrows Z \<and> c < ncols Z then put_all (Z[r := (Z ! r)[c := x]]) ps
      else Inl IndexError)"

definition index_put :: "mat \<Rightarrow> nat list \<Rightarrow> nat list \<Rightarrow> vec \<Rightarrow> error + mat" where
  "index_put Z rs cs vals =
     (if length vals = length rs then put_all Z (zip rs (zip cs vals))
      else if length vals = 1 then put_all Z (zip rs (zip cs (replicate (length rs) (hd vals))))
      else Inl RuntimeError_size_mismatch)"

section \<open>Crossbar state\<close>

text \<open>
  The device classes \<open>StaticMemristor\<close> and \<open>DynamicMemristor\<close> live in the package
  \<open>devices\<close>, outside \<open>model.py\<close>. The crossbar uses two things of a calibrated device:
  its attribute \<open>g_linfit\<close> and its method \<open>inference\<close>. A device is the record of these
  two, and the library that constructs and calibrates a device from a target conductance
  is a parameter of the constructor.
\<close>

record device =
  g_linfit :: fl
  inference :: "fl \<Rightarrow> fl"

datatype model_kind = StaticMemristor | DynamicMemristor | OtherModel

record model_params =
  temperature :: real
  frequency :: real

type_synonym device_lib = "model_kind \<Rightarrow> model_params \<Rightarrow> fl \<Rightarrow> device"

definition initialize_memristor ::
  "device_lib \<Rightarrow> model_kind \<Rightarrow> model_params \<Rightarrow> fl \<Rightarrow> error + device" where
  "initialize_memristor lib model params g_0 =
     (if model = StaticMemristor then Inr (lib StaticMemristor params g_0)
      else if model = DynamicMemristor then Inr (lib DynamicMemristor params g_0)
      else Inl Exception_invalid_memristor_model)"

text \<open>The dictionary \<open>crossbar_params\<close>: the four resistances, Python numbers.\<close>

record crossbar_params =
  param_r_wl :: real
  param_r_bl :: real
  param_r_in :: real
  param_r_out :: real

text \<open>
  The attributes of a \<open>LineResistanceCrossbar\<close>. \<open>cb_n\<close> and \<open>cb_m\<close> are \<open>self.n\<close> and
  \<open>self.m\<close>; \<open>g_wl\<close> and \<open>g_bl\<close> are tensors of shape \<open>(1,)\<close>, kept as their entry;
  \<open>cache\<close> is the entry \<open>"M_inv"\<close> of \<open>self.cache\<close>.
\<close>

record crossbar =
  memristor_model :: model_kind
  memristor_params :: model_params
  memristors :: "device list list"
  ideal_w :: mat
  cb_n :: nat
  cb_m :: nat
  fitted_w :: tensor
  cache :: "mat option"
  g_wl :: fl
  g_bl :: fl
  r_in :: real
  r_out :: real
  g_s_wl_in :: vec
  g_s_wl_out :: vec
  g_s_bl_in :: vec
  g_s_bl_out :: vec
  v_bl_in :: vec
  v_bl_out :: vec
  v_wl_out :: vec

text \<open>
  \<open>__init__\<close>, from the device library, the model, its parameters, the matrix \<open>ideal_w\<close>
  of target conductances (a tensor of rank 2, the list of its rows) and the resistances.
  \<open>1 / crossbar_params["r_wl"]\<close> is a division of Python numbers, which raises on zero;
  \<open>torch.ones(m) / r_in\<close> is a tensor division, which does not.
\<close>

definition init ::
  "device_lib \<Rightarrow> model_kind \<Rightarrow> model_params \<Rightarrow> mat \<Rightarrow> crossbar_params \<Rightarrow> error + crossbar" where
  "init lib model params w xp =
     ebind (emap (emap (initialize_memristor lib model params)) w)
       (\<lambda>mems.
          if param_r_wl xp = 0 then Inl ZeroDivisionError
          else if param_r_bl xp = 0 then Inl ZeroDivisionError
          else
            let n = nrows w; m = ncols w in
            Inr \<lparr> memristor_model = model,
                  memristor_params = params,
                  memristors = mems,
                  ideal_w = w,
                  cb_n = n,
                  cb_m = m,
                  fitted_w = squeeze (tensor_of_rows (map (map g_linfit) mems)),
                  cache = None,
                  g_wl = Fin (1 / param_r_wl xp),
                  g_bl = Fin (1 / param_r_bl xp),
                  r_in = param_r_in xp,
                  r_out = param_r_out xp,
                  g_s_wl_in = replicate m (Fin 1 / Fin (param_r_in xp)),
                  g_s_wl_out = replicate m (Fin 1 * Fin (1 / 10 ^ 15)),
                  g_s_bl_in = replicate n (Fin 1 * Fin (1 / 10 ^ 15)),
                  g_s_bl_out = replicate n (Fin 1 / Fin (param_r_out xp)),
                  v_bl_in = replicate n (Fin 0),
                  v_bl_out = replicate n (Fin 0),
                  v_wl_out = replicate m (Fin 0) \<rparr>)"

section \<open>The multiplies without line resistance\<close>

definition ideal_vmm :: "crossbar \<Rightarrow> vec \<Rightarrow> error + tensor" where
  "ideal_vmm cb v = matmul (T2 (ideal_w cb)) (T1 v)"

definition naive_linear_memristive_vmm :: "crossbar \<Rightarrow> vec \<Rightarrow> error + tensor" where
  "naive_linear_memristive_vmm cb v = matmul (fitted_w cb) (T1 v)"

text \<open>\<open>mac_op\<close> reads \<open>a2[j]\<close> for every device of the row.\<close>

definition mac_op :: "device list \<Rightarrow> vec \<Rightarrow> error + fl" where
  "mac_op a1 a2 =
     ebind (emap (\<lambda>j. ebind (getv a2 (int j)) (\<lambda>x. Inr (inference (a1 ! j) x)))
              [0..<length a1])
       (\<lambda>cur. Inr (fl_sum cur))"

definition naive_memristive_vmm :: "crossbar \<Rightarrow> vec \<Rightarrow> error + vec" where
  "naive_memristive_vmm cb v = emap (\<lambda>row. mac_op row v) (memristors cb)"

section \<open>The equivalent-circuit builder\<close>

text \<open>
  \<open>makea(i)\<close>, the block of word line \<open>i\<close>: the five summands are built and added from
  left to right, so the first exception is the one a Python run raises.
\<close>

definition makea :: "crossbar \<Rightarrow> tensor \<Rightarrow> nat \<Rightarrow> error + mat" where
  "makea cb W_t i =
     (let n = int (cb_n cb); g = g_wl cb in
      ebind (index_row W_t (int i)) (\<lambda>w.
      ebind (ones (n - 2)) (\<lambda>o2.
      ebind (mat_add (diag w) (diag ([g] @ map (\<lambda>x. g * Fin 2 * x) o2 @ [g]))) (\<lambda>s1.
      ebind (ones (n - 1)) (\<lambda>o1.
      ebind (mat_add s1 (diag_k (map (\<lambda>x. g * Fin (- 1) * x) o1) 1)) (\<lambda>s2.
      ebind (ones (n - 1)) (\<lambda>o1'.
      ebind (mat_add s2 (diag_k (map (\<lambda>x. g * Fin (- 1) * x) o1') (- 1))) (\<lambda>s3.
      ebind (getv (g_s_wl_in cb) (int i)) (\<lambda>g_in.
      ebind (zeros (n - 2)) (\<lambda>z.
      ebind (getv (g_s_wl_out cb) (int i)) (\<lambda>g_out.
      mat_add s3 (diag ([g_in] @ z @ [g_out])))))))))))))"

definition make_A :: "crossbar \<Rightarrow> tensor \<Rightarrow> error + mat" where
  "make_A cb W =
     ebind (emap (makea cb (torch_t W)) [0..<cb_m cb]) (\<lambda>blocks. Inr (block_diag blocks))"

definition make_B :: "crossbar \<Rightarrow> tensor \<Rightarrow> error + mat" where
  "make_B cb W =
     ebind (emap (\<lambda>i. ebind (index_row (torch_t W) (int i)) (\<lambda>w. Inr (mat_neg (diag w))))
              [0..<cb_m cb])
       (\<lambda>blocks. Inr (block_diag blocks))"

text \<open>
  \<open>makec(j)\<close>: in an \<open>m \<times> mn\<close> matrix of zeros, row \<open>k\<close> gets \<open>W_t[k, j]\<close> at column
  \<open>k * n + j\<close>.
\<close>

definition makec :: "crossbar \<Rightarrow> tensor \<Rightarrow> nat \<Rightarrow> error + mat" where
  "makec cb W_t j =
     (let m = cb_m cb; n = cb_n cb in
      ebind (index_col W_t (int j)) (\<lambda>vals.
      index_put (zeros2 m (m * n)) [0..<m] (map (\<lambda>k. k * n + j) [0..<m]) vals))"

text \<open>
  The last statement of \<open>make_C\<close> is the expression
  \<open>torch.cat([makec(j) for j in range(n)], dim=0)\<close>; \<open>make_C_assembled\<close> is its value.
  The statement has no \<open>return\<close>: \<open>make_C\<close> evaluates the expression, drops the value and
  returns \<open>None\<close>.
\<close>

definition make_C_assembled :: "crossbar \<Rightarrow> tensor \<Rightarrow> error + mat" where
  "make_C_assembled cb W = ebind (emap (makec cb (torch_t W)) [0..<cb_n cb]) cat0"

definition make_C :: "crossbar \<Rightarrow> tensor \<Rightarrow> error + mat option" where
  "make_C cb W = ebind (make_C_assembled cb W) (\<lambda>_. Inr None)"

text \<open>
  \<open>maked(j)\<close> fills an \<open>m \<times> mn\<close> matrix of zeros by assignments, in the order of the
  source: the row \<open>i = 0\<close>, the loop over \<open>i = 1, ..., m - 1\<close>, and the row \<open>i = m - 1\<close>
  again. The right-hand side of an assignment is evaluated before the target is indexed.
\<close>

fun maked_loop :: "crossbar \<Rightarrow> tensor \<Rightarrow> int \<Rightarrow> nat list \<Rightarrow> mat \<Rightarrow> error + mat" where
  "maked_loop cb W_t j [] d = Inr d"
| "maked_loop cb W_t j (i # is) d =
     (let n = int (cb_n cb); g = g_bl cb in
      ebind (set2 d (int i) (n * (int i - 1) + j) g) (\<lambda>d1.
      ebind (get2 W_t (int i) j) (\<lambda>w.
      ebind (set2 d1 (int i) (n * int i + j) (- g - w - g)) (\<lambda>d2.
      ebind (set2 d2 (int i) j g) (\<lambda>d3.
      maked_loop cb W_t j is d3)))))"

definition maked :: "crossbar \<Rightarrow> tensor \<Rightarrow> nat \<Rightarrow> error + mat" where
  "maked cb W_t jn =
     (let m = int (cb_m cb); n = int (cb_n cb); j = int jn; g = g_bl cb in
      ebind (getv (g_s_bl_in cb) j) (\<lambda>g_in.
      ebind (get2 W_t 0 j) (\<lambda>w0.
      ebind (set2 (zeros2 (cb_m cb) (cb_m cb * cb_n cb)) 0 j (- g_in - g - w0)) (\<lambda>d1.
      ebind (set2 d1 0 (n * (0 + 1) + j) g) (\<lambda>d2.
      ebind (maked_loop cb W_t j [1..<cb_m cb] d2) (\<lambda>d3.
      ebind (set2 d3 (m - 1) (n * ((m - 1) - 1) + j) g) (\<lambda>d4.
      ebind (getv (g_s_bl_out cb) j) (\<lambda>g_out.
      ebind (get2 W_t (m - 1) j) (\<lambda>w1.
      set2 d4 (m - 1) (n * (m - 1) + j) (- g_out - w1 - g))))))))))"

definition make_D :: "crossbar \<Rightarrow> tensor \<Rightarrow> error + mat" where
  "make_D cb W = ebind (emap (maked cb (torch_t W)) [0..<cb_n cb]) cat0"

text \<open>
  \<open>make_E\<close>: \<open>E_B\<close> is built first, then \<open>E_W\<close>. Both comprehensions run over
  \<open>range(m)\<close> and build pieces of length \<open>n\<close>; the bit-line piece reads \<open>v_bl_in[i]\<close> for
  both of its ends.
\<close>

definition e_b_piece :: "crossbar \<Rightarrow> nat \<Rightarrow> error + mat" where
  "e_b_piece cb i =
     ebind (getv (v_bl_in cb) (int i)) (\<lambda>vb.
     ebind (getv (g_s_bl_in cb) (int i)) (\<lambda>g_in.
     ebind (zeros (int (cb_n cb) - 2)) (\<lambda>z.
     ebind (getv (v_bl_in cb) (int i)) (\<lambda>vb'.
     ebind (getv (g_s_bl_out cb) (int i)) (\<lambda>g_out.
     Inr (unsqueeze1 ([- vb * g_in] @ z @ [- vb' * g_out])))))))"

definition e_w_piece :: "crossbar \<Rightarrow> vec \<Rightarrow> nat \<Rightarrow> error + vec" where
  "e_w_piece cb v_applied i =
     ebind (getv v_applied (int i)) (\<lambda>va.
     ebind (getv (g_s_wl_in cb) (int i)) (\<lambda>g_in.
     ebind (zeros (int (cb_n cb) - 2)) (\<lambda>z.
     ebind (getv (v_wl_out cb) (int i)) (\<lambda>vo.
     ebind (getv (g_s_wl_out cb) (int i)) (\<lambda>g_out.
     Inr ([va * g_in] @ z @ [vo * g_out]))))))"

definition make_E :: "crossbar \<Rightarrow> vec \<Rightarrow> error + mat" where
  "make_E cb v_applied =
     ebind (emap (e_b_piece cb) [0..<cb_m cb]) (\<lambda>bs.
     ebind (cat0 bs) (\<lambda>E_B.
     ebind (emap (e_w_piece cb v_applied) [0..<cb_m cb]) (\<lambda>ws.
     ebind (cat_vecs ws) (\<lambda>E_W.
     cat0 [unsqueeze1 E_W, E_B]))))"

section \<open>The linear solve\<close>

text \<open>
  \<open>torch.inverse\<close> is a library routine: the parameter \<open>tinv\<close>, which may fail on a singular
  matrix. \<open>torch.cat\<close> raises a \<open>TypeError\<close> on an argument that is not a tensor, as the
  \<open>None\<close> that \<open>make_C\<close> returns. A solve that returns also stores the inverse in the
  cache.
\<close>

definition solve_v ::
  "(mat \<Rightarrow> error + mat) \<Rightarrow> crossbar \<Rightarrow> tensor \<Rightarrow> vec \<Rightarrow> error + (mat \<times> crossbar)" where
  "solve_v tinv cb W v_applied =
     ebind (make_A cb W) (\<lambda>A.
     ebind (make_B cb W) (\<lambda>B.
     ebind (make_C cb W) (\<lambda>C.
     ebind (make_D cb W) (\<lambda>D.
     ebind (make_E cb v_applied) (\<lambda>E.
     ebind (cat1 A B) (\<lambda>AB.
     (case C of
        None \<Rightarrow> Inl TypeError_none_not_tensor
      | Some Cm \<Rightarrow>
          ebind (cat1 Cm D) (\<lambda>CD.
          ebind (cat0 [AB, CD]) (\<lambda>M.
          ebind (tinv M) (\<lambda>M_inv.
          ebind (matmul2 M_inv E) (\<lambda>V.
          Inr (V, cb\<lparr>cache := Some M_inv\<rparr>))))))))))))"

section \<open>The refinement loop\<close>

text \<open>
  The variable \<open>V_crossbar\<close> holds a tensor of rank 2, the column that \<open>solve_v\<close> returns,
  or of rank 3, after \<open>view([-1, m, n])\<close>.
\<close>

datatype vtensor = V2 mat | V3 "mat list"

fun chunks :: "nat \<Rightarrow> nat \<Rightarrow> 'a list \<Rightarrow> 'a list list" where
  "chunks 0 k xs = []"
| "chunks (Suc c) k xs = take k xs # chunks c k (drop k xs)"

fun flat :: "vtensor \<Rightarrow> vec" where
  "flat (V2 A) = concat A"
| "flat (V3 As) = concat (concat As)"

definition view3 :: "vtensor \<Rightarrow> nat \<Rightarrow> nat \<Rightarrow> error + vtensor" where
  "view3 V m n =
     (let xs = flat V in
      if m * n = 0 \<or> length xs mod (m * n) \<noteq> 0 then Inl RuntimeError_invalid_view
      else Inr (V3 (map (chunks m n) (chunks (length xs div (m * n)) (m * n) xs))))"

text \<open>\<open>V[k, :, :]\<close> needs a tensor of rank 3.\<close>

fun index3 :: "vtensor \<Rightarrow> int \<Rightarrow> error + mat" where
  "index3 (V3 As) k = getv As k"
| "index3 (V2 A) k = Inl IndexError"

text \<open>
  The new conductances of one iteration: the current of each device at its voltage drop,
  divided by the drop, entry by entry. The division is torch's: it raises nothing.
\<close>

definition currents :: "crossbar \<Rightarrow> mat \<Rightarrow> error + mat" where
  "currents cb V_diff =
     emap (\<lambda>i. emap (\<lambda>j.
             ebind (getv (memristors cb) (int i)) (\<lambda>row.
             ebind (getv row (int j)) (\<lambda>d.
             ebind (get2 (T2 V_diff) (int i) (int j)) (\<lambda>x.
             Inr (inference d x)))))
           [0..<cb_m cb]) [0..<cb_n cb]"

definition update_W :: "crossbar \<Rightarrow> mat \<Rightarrow> error + mat" where
  "update_W cb V_diff =
     ebind (currents cb V_diff) (\<lambda>cur. mat_div (as_mat (tensor_of_rows cur)) V_diff)"

definition voltage_drop :: "vtensor \<Rightarrow> error + mat" where
  "voltage_drop V =
     ebind (index3 V 0) (\<lambda>V0.
     ebind (index3 V 1) (\<lambda>V1.
     mat_sub (transpose_mat V1) (transpose_mat V0)))"

text \<open>
  \<open>lineres_memristive_vmm\<close> calls the method \<open>self.solve_v\<close>. The loop and the body of
  the multiply are written over the solver they call, and the multiply is the body over
  \<open>solve_v\<close>.

  The loop \<open>for i in range(iter)\<close> is a recursion on the number of rounds left (a
  natural number: \<open>range\<close> of a negative count is empty, as of zero). A round views the
  last solution, updates the conductances and solves again; a solve that raises ends the
  call.
\<close>

type_synonym solver = "crossbar \<Rightarrow> tensor \<Rightarrow> vec \<Rightarrow> error + (mat \<times> crossbar)"

fun refine_loop ::
  "solver \<Rightarrow> nat \<Rightarrow> crossbar \<Rightarrow> vec \<Rightarrow> tensor \<Rightarrow> vtensor
     \<Rightarrow> error + (tensor \<times> vtensor \<times> crossbar)" where
  "refine_loop solve 0 cb v_applied W V = Inr (W, V, cb)"
| "refine_loop solve (Suc k) cb v_applied W V =
     ebind (view3 V (cb_m cb) (cb_n cb)) (\<lambda>V'.
     ebind (voltage_drop V') (\<lambda>V_diff.
     ebind (update_W cb V_diff) (\<lambda>W'.
     ebind (solve cb (T2 W') v_applied) (\<lambda>(V'', cb').
     refine_loop solve k cb' v_applied (T2 W') (V2 V'')))))"

definition lineres_with :: "solver \<Rightarrow> crossbar \<Rightarrow> vec \<Rightarrow> nat \<Rightarrow> error + (vec \<times> crossbar)" where
  "lineres_with solve cb v_applied iter =
     ebind (solve cb (fitted_w cb) v_applied) (\<lambda>(V, cb1).
     ebind (refine_loop solve iter cb1 v_applied (fitted_w cb) (V2 V)) (\<lambda>(W, V_crossbar, cb2).
     ebind (voltage_drop V_crossbar) (\<lambda>V_diff.
     ebind (mat_mul_bc V_diff W) (\<lambda>I.
     Inr (map fl_sum I, cb2)))))"

definition lineres_memristive_vmm ::
  "(mat \<Rightarrow> error + mat) \<Rightarrow> crossbar \<Rightarrow> vec \<Rightarrow> nat \<Rightarrow> error + (vec \<times> crossbar)" where
  "lineres_memristive_vmm tinv cb v_applied iter = lineres_with (solve_v tinv) cb v_applied iter"

section \<open>Notions used to state the properties\<close>




definition rect :: "nat \<Rightarrow> nat \<Rightarrow> 'a list list \<Rightarrow> bool" where
  "rect n m A = (length A = n \<and> list_all (\<lambda>r. length r = m) A)"

definition square :: "nat \<Rightarrow> mat \<Rightarrow> bool" where
  "square n A = (nrows A = n \<and> ncols A = n)"

text \<open>
  \<open>C\<close> is the structural transpose of \<open>B\<close>: \<open>C\<close> has the transposed shape, and the entry
  \<open>(q, p)\<close> of \<open>C\<close> is nonzero exactly when the entry \<open>(p, q)\<close> of \<open>B\<close> is.
\<close>

definition structural_transpose :: "mat \<Rightarrow> mat \<Rightarrow> bool" where
  "structural_transpose B C =
     (nrows C = ncols B \<and> ncols C = nrows B
      \<and> list_all (\<lambda>p. list_all (\<lambda>q. (B ! p ! q \<noteq> Fin 0) = (C ! q ! p \<noteq> Fin 0))
                       [0..<ncols B]) [0..<nrows B])"

text \<open>
  The geometry that the constructor establishes: \<open>n\<close> rows, \<open>m\<close> columns, one terminal
  conductance and one bias per word line (\<open>m\<close> of them) and per bit line (\<open>n\<close> of them).
\<close>

definition geometry :: "nat \<Rightarrow> nat \<Rightarrow> crossbar \<Rightarrow> bool" where
  "geometry n m cb =
     (cb_n cb = n \<and> cb_m cb = m
      \<and> length (g_s_wl_in cb) = m \<and> length (g_s_wl_out cb) = m \<and> length (v_wl_out cb) = m
      \<and> length (g_s_bl_in cb) = n \<and> length (g_s_bl_out cb) = n
      \<and> length (v_bl_in cb) = n \<and> length (v_bl_out cb) = n)"

text \<open>
  The scalar multiple and the sum of vectors and of tensors of the same shape, and their
  lifting to the results of a multiply: of a call that raised, the exception.
\<close>

definition vscale :: "fl \<Rightarrow> vec \<Rightarrow> vec" where
  "vscale k v = map (\<lambda>x. k * x) v"

definition vadd :: "vec \<Rightarrow> vec \<Rightarrow> vec" where
  "vadd v u = map2 (+) v u"





section \<open>Example crossbars\<close>

text \<open>
  Inputs for the evaluations below: a device library whose devices are exactly linear
  (the fitted conductance is the target conductance, the current is conductance times
  voltage), and the crossbar that \<open>__init__\<close> builds from a matrix of target
  conductances with these devices.
\<close>

definition linear_lib :: device_lib where
  "linear_lib k p g = \<lparr>g_linfit = g, inference = (\<lambda>v. g * v)\<rparr>"

definition room :: model_params where
  "room = \<lparr>temperature = 300, frequency = 1\<rparr>"

definition unit_params :: crossbar_params where
  "unit_params = \<lparr>param_r_wl = 1, param_r_bl = 1, param_r_in = 1, param_r_out = 1\<rparr>"

definition thin_params :: crossbar_params where
  "thin_params =
     \<lparr>param_r_wl = 1 / 10 ^ 9, param_r_bl = 1 / 10 ^ 9, param_r_in = 1, param_r_out = 1\<rparr>"

definition example_crossbar :: "crossbar_params \<Rightarrow> mat \<Rightarrow> crossbar" where
  "example_crossbar xp w = projr (init linear_lib StaticMemristor room w xp)"

definition W22 :: mat where
  "W22 = [[Fin 1, Fin 2], [Fin 3, Fin 4]]"

definition W23 :: mat where
  "W23 = [[Fin 1, Fin 2, Fin 5], [Fin 3, Fin 4, Fin 6]]"

section \<open>What the solve path returns\<close>

lemma ebind_Inr_iff: "ebind r f = Inr y \<longleftrightarrow> (\<exists>x. r = Inr x \<and> f x = Inr y)"
  by (cases r) (simp_all add: ebind_def)

lemma ebind_Inl_iff: "ebind r f = Inl e \<longleftrightarrow> r = Inl e \<or> (\<exists>x. r = Inr x \<and> f x = Inl e)"
  by (cases r) (simp_all add: ebind_def)

lemma ebind_simps [simp]: "ebind (Inl e) f = Inl e" "ebind (Inr x) f = f x"
  by (simp_all add: ebind_def)

lemma make_C_value: "make_C cb W = Inr C \<Longrightarrow> C = None"
  by (auto simp: make_C_def ebind_Inr_iff)

lemma solve_v_not_Inr: "solve_v tinv cb W v \<noteq> Inr r"
proof
  assume "solve_v tinv cb W v = Inr r"
  then obtain A B C D E AB where C: "make_C cb W = Inr C"
    and rest: "(case C of None \<Rightarrow> Inl TypeError_none_not_tensor
                | Some Cm \<Rightarrow>
                    ebind (cat1 Cm D) (\<lambda>CD.
                    ebind (cat0 [AB, CD]) (\<lambda>M.
                    ebind (tinv M) (\<lambda>M_inv.
                    ebind (matmul2 M_inv E) (\<lambda>V.
                    Inr (V, cb\<lparr>cache := Some M_inv\<rparr>)))))) = Inr r"
    unfolding solve_v_def ebind_Inr_iff by blast
  from make_C_value [OF C] rest show False by simp
qed

lemma solve_v_raises: "\<exists>e. solve_v tinv cb W v = Inl e"
  using solve_v_not_Inr [of tinv cb W v] by (cases "solve_v tinv cb W v") auto

lemma lineres_raises: "\<exists>e. lineres_memristive_vmm tinv cb v k = Inl e"
proof -
  obtain e where "solve_v tinv cb (fitted_w cb) v = Inl e"
    using solve_v_raises by blast
  then show ?thesis by (simp add: lineres_memristive_vmm_def lineres_with_def)
qed

text \<open>
  C1. \<open>solve_v\<close> on a 2 \<times> 2 crossbar built by the constructor, with a 2 \<times> 2 conductance
  matrix and a voltage vector of length 2: the expression in \<open>make_C\<close> has the coupling
  block as its value, but \<open>make_C\<close> returns \<open>None\<close>, and \<open>solve_v\<close> raises the
  \<open>TypeError\<close> of \<open>torch.cat\<close> instead of assembling the coefficient matrix.
\<close>

theorem solve_v_none_block:
  "init linear_lib StaticMemristor room W22 unit_params = Inr (example_crossbar unit_params W22)
   \<and> make_C_assembled (example_crossbar unit_params W22) (T2 W22) =
       Inr [[Fin 1, Fin 0, Fin 0, Fin 0], [Fin 0, Fin 0, Fin 2, Fin 0],
            [Fin 0, Fin 3, Fin 0, Fin 0], [Fin 0, Fin 0, Fin 0, Fin 4]]
   \<and> make_C (example_crossbar unit_params W22) (T2 W22) = Inr None
   \<and> solve_v tinv (example_crossbar unit_params W22) (T2 W22) [Fin 1, Fin 1] =
       Inl TypeError_none_not_tensor"
proof (intro conjI)
  show "init linear_lib StaticMemristor room W22 unit_params
          = Inr (example_crossbar unit_params W22)"
    by (simp add: example_crossbar_def init_def initialize_memristor_def W22_def
        unit_params_def Let_def)
  have "map_sum id fst (solve_v tinv (example_crossbar unit_params W22) (T2 W22)
          [Fin 1, Fin 1]) = Inl TypeError_none_not_tensor"
    by code_simp
  then show "solve_v tinv (example_crossbar unit_params W22) (T2 W22) [Fin 1, Fin 1] =
      Inl TypeError_none_not_tensor"
    by (cases "solve_v tinv (example_crossbar unit_params W22) (T2 W22) [Fin 1, Fin 1]")
      simp_all
qed code_simp+

lemma Inl_of_map_sum: "map_sum id f r = Inl e \<Longrightarrow> r = Inl e"
  by (cases r) simp_all

lemma lineres_example_raises:
  "lineres_memristive_vmm tinv (example_crossbar unit_params W22) [Fin 1, Fin 1] k =
     Inl TypeError_none_not_tensor"
proof -
  have "map_sum id fst (solve_v tinv (example_crossbar unit_params W22)
          (fitted_w (example_crossbar unit_params W22)) [Fin 1, Fin 1]) =
        Inl TypeError_none_not_tensor"
    by code_simp
  then have "solve_v tinv (example_crossbar unit_params W22)
          (fitted_w (example_crossbar unit_params W22)) [Fin 1, Fin 1] =
        Inl TypeError_none_not_tensor"
    by (rule Inl_of_map_sum)
  then show ?thesis
    by (simp add: lineres_memristive_vmm_def lineres_with_def)
qed

lemma voltage_drop_rank2: "voltage_drop (V2 V) = Inl IndexError"
  by (simp add: voltage_drop_def)

lemma refine_loop_rank2:
  "refine_loop solve k cb v W (V2 V) = Inr (W', Vc, cb') \<Longrightarrow> \<exists>V'. Vc = V2 V'"
proof (induction k arbitrary: cb W V)
  case 0
  then show ?case by auto
next
  case (Suc k)
  then show ?case by (auto simp: ebind_Inr_iff)
qed

lemma lineres_with_not_Inr: "lineres_with solve cb v k \<noteq> Inr r"
proof
  assume "lineres_with solve cb v k = Inr r"
  then obtain x where
    b: "(case x of (V, cb1) \<Rightarrow>
          ebind (refine_loop solve k cb1 v (fitted_w cb) (V2 V)) (\<lambda>(W, V_crossbar, cb2).
          ebind (voltage_drop V_crossbar) (\<lambda>V_diff.
          ebind (mat_mul_bc V_diff W) (\<lambda>I. Inr (map fl_sum I, cb2))))) = Inr r"
    unfolding lineres_with_def ebind_Inr_iff by blast
  obtain V cb1 where x: "x = (V, cb1)" by (cases x)
  from b obtain y where
    loop: "refine_loop solve k cb1 v (fitted_w cb) (V2 V) = Inr y"
    and c: "(case y of (W, V_crossbar, cb2) \<Rightarrow>
          ebind (voltage_drop V_crossbar) (\<lambda>V_diff.
          ebind (mat_mul_bc V_diff W) (\<lambda>I. Inr (map fl_sum I, cb2)))) = Inr r"
    unfolding x prod.case ebind_Inr_iff by blast
  obtain W Vc cb2 where y: "y = (W, Vc, cb2)" by (cases y)
  from refine_loop_rank2 [OF loop [unfolded y]] obtain V' where "Vc = V2 V'" ..
  with c y show False by (simp add: voltage_drop_rank2)
qed

lemma lineres_with_raises: "\<exists>e. lineres_with solve cb v k = Inl e"
  using lineres_with_not_Inr [of solve cb v k] by (cases "lineres_with solve cb v k") auto

text \<open>
  C2. The full multiply with \<open>iter = 0\<close> on the 2 \<times> 2 example: the only solve raises the
  \<open>TypeError\<close> of the block that \<open>make_C\<close> does not return, so no output is returned.
  Moreover, whatever the solver returns: with zero iterations the loop leaves the result
  \<open>V\<close> of the solve as it is, a tensor of rank 2, the expression \<open>V_crossbar[0, :, :]\<close>
  after the loop raises an \<open>IndexError\<close> on it, and the multiply raises.
\<close>

theorem lineres_iter0_raises:
  "lineres_memristive_vmm tinv (example_crossbar unit_params W22) [Fin 1, Fin 1] 0 =
     Inl TypeError_none_not_tensor
   \<and> refine_loop solve 0 cb v W (V2 V) = Inr (W, V2 V, cb)
   \<and> voltage_drop (V2 V) = Inl IndexError
   \<and> (\<exists>e. lineres_with solve cb v 0 = Inl e)"
  by (simp add: lineres_example_raises voltage_drop_rank2 lineres_with_raises)

text \<open>
  C5. The full multiply with any positive iteration count on the 2 \<times> 2 example: the
  initial solve raises, so no round of the refinement loop runs and no current vector is
  returned. Moreover, whatever the solver returns, the multiply raises: the solution of
  the last round is not viewed, and the expression \<open>V_crossbar[0, :, :]\<close> after the loop
  raises an \<open>IndexError\<close> on a tensor of rank 2.
\<close>

theorem lineres_iterations_raise:
  "lineres_memristive_vmm tinv (example_crossbar unit_params W22) [Fin 1, Fin 1] (Suc k) =
     Inl TypeError_none_not_tensor
   \<and> (\<exists>e. lineres_with solve cb v (Suc k) = Inl e)"
  by (simp add: lineres_example_raises lineres_with_raises)

lemma make_E_ignores_v_bl_out: "make_E (cb\<lparr>v_bl_out := x\<rparr>) v = make_E cb v"
proof -
  have b: "e_b_piece (cb\<lparr>v_bl_out := x\<rparr>) = e_b_piece cb"
    by (rule ext) (simp add: e_b_piece_def)
  have w: "e_w_piece (cb\<lparr>v_bl_out := x\<rparr>) v = e_w_piece cb v"
    by (rule ext) (simp add: e_w_piece_def)
  show ?thesis by (simp add: make_E_def b w)
qed

text \<open>
  C6. \<open>make_E\<close> on a crossbar with 2 rows and 3 columns raises an \<open>IndexError\<close> for a
  voltage vector of length 3: the bit-line pieces index the bias and terminal vectors,
  which have one entry per row, with the column index. And \<open>make_E\<close> never reads
  \<open>v_bl_out\<close>: with the bit-line outputs of the 2 \<times> 2 example biased to 1 V, every
  bit-line entry of \<open>E\<close> (its last four) is zero.
\<close>

theorem make_E_bit_line_entries:
  "cb_n (example_crossbar unit_params W23) = 2
   \<and> cb_m (example_crossbar unit_params W23) = 3
   \<and> make_E (example_crossbar unit_params W23) [Fin 1, Fin 1, Fin 1] = Inl IndexError
   \<and> make_E ((example_crossbar unit_params W22)\<lparr>v_bl_out := [Fin 1, Fin 1]\<rparr>) [Fin 5, Fin 7] =
       Inr [[Fin 5], [Fin 0], [Fin 7], [Fin 0], [Fin 0], [Fin 0], [Fin 0], [Fin 0]]
   \<and> make_E (cb\<lparr>v_bl_out := x\<rparr>) v = make_E cb v"
proof (intro conjI)
  show "make_E (cb\<lparr>v_bl_out := x\<rparr>) v = make_E cb v"
    by (rule make_E_ignores_v_bl_out)
  have "make_E (example_crossbar unit_params W22) [Fin 5, Fin 7] =
       Inr [[Fin 5], [Fin 0], [Fin 7], [Fin 0], [Fin 0], [Fin 0], [Fin 0], [Fin 0]]"
    by code_simp
  then show "make_E ((example_crossbar unit_params W22)\<lparr>v_bl_out := [Fin 1, Fin 1]\<rparr>)
      [Fin 5, Fin 7] =
      Inr [[Fin 5], [Fin 0], [Fin 7], [Fin 0], [Fin 0], [Fin 0], [Fin 0], [Fin 0]]"
    by (simp only: make_E_ignores_v_bl_out)
qed code_simp+

text \<open>
  C9. The 1 \<times> 1 crossbar with a device of conductance \<open>1e-4\<close>, line resistances of
  \<open>1e-9\<close>, unit terminal resistances and an applied voltage of \<open>0.2\<close>: the ideal multiply
  returns the vector with the one entry \<open>2e-5\<close>. The constructor squeezes the fitted
  conductance matrix to rank 0, and the full multiply raises an \<open>IndexError\<close>, whatever
  the number of iterations: \<open>make_A\<close> indexes the rank-0 tensor with two indices.
\<close>

theorem single_device_crossbar:
  "ideal_vmm (example_crossbar thin_params [[Fin (1 / 10000)]]) [Fin (2 / 10)] =
     Inr (T1 [Fin (2 / 100000)])
   \<and> fitted_w (example_crossbar thin_params [[Fin (1 / 10000)]]) = T0 (Fin (1 / 10000))
   \<and> make_A (example_crossbar thin_params [[Fin (1 / 10000)]])
        (fitted_w (example_crossbar thin_params [[Fin (1 / 10000)]])) = Inl IndexError
   \<and> lineres_memristive_vmm tinv (example_crossbar thin_params [[Fin (1 / 10000)]])
        [Fin (2 / 10)] k = Inl IndexError"
proof (intro conjI)
  have "map_sum id fst (solve_v tinv (example_crossbar thin_params [[Fin (1 / 10000)]])
          (fitted_w (example_crossbar thin_params [[Fin (1 / 10000)]])) [Fin (2 / 10)]) =
        Inl IndexError"
    by code_simp
  then have "solve_v tinv (example_crossbar thin_params [[Fin (1 / 10000)]])
          (fitted_w (example_crossbar thin_params [[Fin (1 / 10000)]])) [Fin (2 / 10)] =
        Inl IndexError"
    by (rule Inl_of_map_sum)
  then show "lineres_memristive_vmm tinv (example_crossbar thin_params [[Fin (1 / 10000)]])
        [Fin (2 / 10)] k = Inl IndexError"
    by (simp add: lineres_memristive_vmm_def lineres_with_def)
qed code_simp+

section \<open>Products with finite entries\<close>














lemma rect_ncols: "rect n m A \<Longrightarrow> 0 < n \<Longrightarrow> ncols A = m"
  by (cases A) (simp_all add: rect_def ncols_def)


lemma length_vscale [simp]: "length (vscale k v) = length v"
  by (simp add: vscale_def)

lemma length_vadd [simp]: "length (vadd v u) = min (length v) (length u)"
  by (simp add: vadd_def)




section \<open>The squeezed fitted conductance matrix\<close>

lemma emap_length: "emap f xs = Inr ys \<Longrightarrow> length ys = length xs"
proof (induction xs arbitrary: ys)
  case Nil then show ?case by simp
next
  case (Cons x xs) then show ?case by (auto split: sum.splits)
qed

lemma emap_nth: "emap f xs = Inr ys \<Longrightarrow> i < length xs \<Longrightarrow> f (xs ! i) = Inr (ys ! i)"
proof (induction xs arbitrary: ys i)
  case Nil then show ?case by simp
next
  case (Cons x xs) then show ?case by (cases i) (auto split: sum.splits)
qed

lemma emap_rect:
  assumes "emap (emap f) w = Inr mems" "rect n m w"
  shows "rect n m mems"
proof -
  have len: "length mems = length w" using assms(1) by (rule emap_length)
  have "length (mems ! i) = m" if "i < length w" for i
  proof -
    have "emap f (w ! i) = Inr (mems ! i)" using assms(1) that by (rule emap_nth)
    then have "length (mems ! i) = length (w ! i)" by (rule emap_length)
    then show ?thesis using assms(2) that by (simp add: rect_def list_all_length)
  qed
  then show ?thesis using len assms(2) by (simp add: rect_def list_all_length)
qed

lemma init_fields:
  assumes "init lib model params w xp = Inr cb"
  shows "\<exists>mems. emap (emap (initialize_memristor lib model params)) w = Inr mems
          \<and> memristors cb = mems \<and> ideal_w cb = w \<and> cb_n cb = nrows w \<and> cb_m cb = ncols w
          \<and> fitted_w cb = squeeze (tensor_of_rows (map (map g_linfit) mems))"
  using assms unfolding init_def ebind_Inr_iff
  by (auto simp: Let_def split: if_splits)

lemma rect_map_map: "rect n m A \<Longrightarrow> rect n m (map (map f) A)"
  by (simp add: rect_def list_all_iff)

lemma squeeze_single_row:
  assumes "rect 1 m F" "m \<noteq> 1"
  shows "squeeze (tensor_of_rows F) = T1 (hd F)"
proof -
  from assms(1) obtain r where F: "F = [r]" and r: "length r = m"
    by (cases F) (auto simp: rect_def)
  show ?thesis using r assms(2) by (simp add: F tensor_of_rows_def nrows_def ncols_def)
qed

lemma squeeze_matrix:
  assumes "rect n m F" "2 \<le> n" "2 \<le> m"
  shows "squeeze (tensor_of_rows F) = T2 F"
proof -
  have "F \<noteq> []" "nrows F = n" using assms by (auto simp: rect_def nrows_def)
  moreover have "ncols F = m" using rect_ncols [OF assms(1)] assms(2) by simp
  ultimately show ?thesis using assms by (simp add: tensor_of_rows_def)
qed

lemma emap_total: "emap (\<lambda>x. Inr (g x)) xs = Inr (map g xs)"
  by (induction xs) simp_all

lemma init_example:
  assumes "param_r_wl xp \<noteq> 0" "param_r_bl xp \<noteq> 0"
  shows "init linear_lib StaticMemristor room w xp = Inr (example_crossbar xp w)"
proof -
  have "initialize_memristor linear_lib StaticMemristor room
      = (\<lambda>g. Inr (linear_lib StaticMemristor room g))"
    by (rule ext) (simp add: initialize_memristor_def)
  moreover have "emap (\<lambda>g. Inr (linear_lib StaticMemristor room g))
      = (\<lambda>xs. Inr (map (linear_lib StaticMemristor room) xs))"
    by (rule ext) (rule emap_total)
  ultimately have "emap (emap (initialize_memristor linear_lib StaticMemristor room)) w
      = Inr (map (map (linear_lib StaticMemristor room)) w)"
    by (simp only: emap_total)
  then show ?thesis using assms by (simp add: example_crossbar_def init_def Let_def)
qed

text \<open>
  C10, as the code has it. For a crossbar that the constructor builds from an \<open>n \<times> m\<close>
  matrix with at least two columns: with a single row the fitted conductance matrix is
  squeezed to the vector of the \<open>m\<close> fitted conductances of that row, and the
  fitted-linear multiply of an input of length \<open>m\<close> returns a tensor of rank 0, the dot
  product; with two rows or more the matrix keeps its rank, and the multiply returns a
  vector of length \<open>n\<close>.
\<close>

theorem fitted_squeezed:
  assumes "init lib model params w xp = Inr cb"
    and "rect n m w" and "1 \<le> n" and "2 \<le> m" and "length v = m"
  shows "cb_n cb = n \<and> cb_m cb = m
       \<and> (n = 1 \<longrightarrow>
            fitted_w cb = T1 (map g_linfit (hd (memristors cb)))
            \<and> length (hd (memristors cb)) = m
            \<and> naive_linear_memristive_vmm cb v =
                Inr (T0 (dot (map g_linfit (hd (memristors cb))) v)))
       \<and> (2 \<le> n \<longrightarrow>
            fitted_w cb = T2 (map (map g_linfit) (memristors cb))
            \<and> naive_linear_memristive_vmm cb v =
                Inr (T1 (map (\<lambda>r. dot (map g_linfit r) v) (memristors cb)))
            \<and> length (memristors cb) = n)"
proof -
  from init_fields [OF assms(1)] obtain mems where
    mems: "emap (emap (initialize_memristor lib model params)) w = Inr mems"
    and f: "memristors cb = mems" "cb_n cb = nrows w" "cb_m cb = ncols w"
      "fitted_w cb = squeeze (tensor_of_rows (map (map g_linfit) mems))"
    by blast
  have rm: "rect n m mems" using mems assms(2) by (rule emap_rect)
  then have rF: "rect n m (map (map g_linfit) mems)" by (rule rect_map_map)
  have geo: "cb_n cb = n \<and> cb_m cb = m"
    using f assms(2,3) rect_ncols [OF assms(2)] by (simp add: rect_def nrows_def)
  have one: "fitted_w cb = T1 (map g_linfit (hd (memristors cb)))
      \<and> length (hd (memristors cb)) = m
      \<and> naive_linear_memristive_vmm cb v =
          Inr (T0 (dot (map g_linfit (hd (memristors cb))) v))" if "n = 1"
  proof -
    from rm that obtain r where r: "mems = [r]" "length r = m"
      by (cases mems) (auto simp: rect_def)
    have "fitted_w cb = T1 (map g_linfit r)"
      using squeeze_single_row [of m "map (map g_linfit) mems"] rF that assms(4) f(4) r
      by simp
    then show ?thesis
      using r f(1) assms(5) by (simp add: naive_linear_memristive_vmm_def)
  qed
  have two: "fitted_w cb = T2 (map (map g_linfit) (memristors cb))
      \<and> naive_linear_memristive_vmm cb v =
          Inr (T1 (map (\<lambda>r. dot (map g_linfit r) v) (memristors cb)))
      \<and> length (memristors cb) = n" if "2 \<le> n"
  proof -
    have fw: "fitted_w cb = T2 (map (map g_linfit) mems)"
      using squeeze_matrix [OF rF that assms(4)] f(4) by simp
    have "ncols (map (map g_linfit) mems) = m"
      using rect_ncols [OF rF] that by simp
    then show ?thesis
      using fw f(1) rm assms(5)
      by (simp add: naive_linear_memristive_vmm_def rect_def comp_def)
  qed
  from geo one two show ?thesis by blast
qed

theorem fitted_squeezed_witness:
  "init linear_lib StaticMemristor room [[Fin 1, Fin 2]] unit_params =
     Inr (example_crossbar unit_params [[Fin 1, Fin 2]])
   \<and> rect 1 2 [[Fin 1, Fin 2]]
   \<and> fitted_w (example_crossbar unit_params [[Fin 1, Fin 2]]) = T1 [Fin 1, Fin 2]
   \<and> naive_linear_memristive_vmm (example_crossbar unit_params [[Fin 1, Fin 2]])
        [Fin 3, Fin 4] = Inr (T0 (Fin 11))
   \<and> init linear_lib StaticMemristor room W22 unit_params = Inr (example_crossbar unit_params W22)
   \<and> rect 2 2 W22
   \<and> fitted_w (example_crossbar unit_params W22) = T2 [[Fin 1, Fin 2], [Fin 3, Fin 4]]
   \<and> naive_linear_memristive_vmm (example_crossbar unit_params W22) [Fin 3, Fin 4] =
       Inr (T1 [Fin 11, Fin 25])"
proof -
  have p: "param_r_wl unit_params \<noteq> 0" "param_r_bl unit_params \<noteq> 0"
    by (simp_all add: unit_params_def)
  have i1: "init linear_lib StaticMemristor room [[Fin 1, Fin 2]] unit_params =
     Inr (example_crossbar unit_params [[Fin 1, Fin 2]])"
    using p by (rule init_example)
  have i2: "init linear_lib StaticMemristor room W22 unit_params =
     Inr (example_crossbar unit_params W22)"
    using p by (rule init_example)
  have r1: "rect 1 2 [[Fin 1, Fin 2]]" by code_simp
  have r2: "rect 2 2 W22" by code_simp
  have m1: "map g_linfit (hd (memristors (example_crossbar unit_params [[Fin 1, Fin 2]])))
      = [Fin 1, Fin 2]"
    by code_simp
  have d1: "dot [Fin 1, Fin 2] [Fin 3, Fin 4] = Fin 11" by code_simp
  have m2: "map (map g_linfit) (memristors (example_crossbar unit_params W22))
      = [[Fin 1, Fin 2], [Fin 3, Fin 4]]"
    by code_simp
  have d2: "map (\<lambda>r. dot (map g_linfit r) [Fin 3, Fin 4])
      (memristors (example_crossbar unit_params W22)) = [Fin 11, Fin 25]"
    by code_simp
  from fitted_squeezed [OF i1 r1, of "[Fin 3, Fin 4]"]
    fitted_squeezed [OF i2 r2, of "[Fin 3, Fin 4]"] i1 i2 r1 r2 m1 d1 m2 d2
  show ?thesis by simp
qed

text \<open>
  C10 fails for a single column. The constructor squeezes the fitted matrix of the
  2 \<times> 1 crossbar to a vector of length 2, and the fitted-linear multiply of an input
  of length 1 raises the size mismatch of \<open>torch.matmul\<close>; it returns no scalar.
\<close>

theorem single_column_raises:
  "cb_n (example_crossbar unit_params [[Fin 1], [Fin 2]]) = 2
   \<and> cb_m (example_crossbar unit_params [[Fin 1], [Fin 2]]) = 1
   \<and> fitted_w (example_crossbar unit_params [[Fin 1], [Fin 2]]) = T1 [Fin 1, Fin 2]
   \<and> naive_linear_memristive_vmm (example_crossbar unit_params [[Fin 1], [Fin 2]]) [Fin 3] =
       Inl RuntimeError_size_mismatch"
  by code_simp

section \<open>The conductance update of the refinement loop\<close>

lemma emap_Inr_map:
  assumes "\<And>x. x \<in> set xs \<Longrightarrow> f x = Inr (g x)"
  shows "emap f xs = Inr (map g xs)"
  using assms by (induction xs) simp_all

lemma getv_nat: "i < length xs \<Longrightarrow> getv xs (int i) = Inr (xs ! i)"
  by (simp add: getv_def py_index_def)

declare get2.simps [simp del]


lemma bc2_same_shape:
  assumes "nrows A = nrows B" "ncols A = ncols B"
  shows "bc2 f A B =
    Inr (map (\<lambda>i. map (\<lambda>j. f (A ! i ! j) (B ! i ! j)) [0..<ncols A]) [0..<nrows A])"
  using assms by (auto simp: bc2_def bc_dim_def)







section \<open>Malformed shapes on the solve path\<close>

lemma square_diag_k: "length v + nat \<bar>k\<bar> = n \<Longrightarrow> 0 < n \<Longrightarrow> square n (diag_k v k)"
  by (auto simp: square_def diag_k_def nrows_def ncols_def Let_def upt_conv_Cons split: list.splits)

lemma square_diag: "length v = n \<Longrightarrow> 0 < n \<Longrightarrow> square n (diag v)"
  using square_diag_k [of v 0 n] by (simp add: diag_def)

lemma mat_add_square:
  assumes "square n A" "square n B" "0 < n"
  shows "\<exists>C. mat_add A B = Inr C \<and> square n C"
proof -
  have "mat_add A B =
      Inr (map (\<lambda>i. map (\<lambda>j. A ! i ! j + B ! i ! j) [0..<ncols A]) [0..<nrows A])"
    unfolding mat_add_def using assms by (intro bc2_same_shape) (simp_all add: square_def)
  moreover have "square n (map (\<lambda>i. map (\<lambda>j. A ! i ! j + B ! i ! j) [0..<ncols A]) [0..<nrows A])"
    using assms
    by (auto simp: square_def nrows_def ncols_def upt_conv_Cons split: list.splits)
  ultimately show ?thesis by blast
qed

lemma ncols_transpose:
  "0 < ncols W \<Longrightarrow> ncols (transpose_mat W) = length W"
  by (simp add: transpose_mat_def ncols_def column_def upt_conv_Cons split: list.splits)

lemma nrows_transpose: "nrows (transpose_mat W) = ncols W"
  by (simp add: transpose_mat_def nrows_def)

lemma transpose_row:
  "i < ncols W \<Longrightarrow> transpose_mat W ! i = column W i"
  by (simp add: transpose_mat_def)

lemma length_column [simp]: "length (column W i) = length W"
  by (simp add: column_def)

lemma ones_nat: "2 \<le> n \<Longrightarrow> ones (int n - 2) = Inr (replicate (n - 2) (Fin 1))"
  "1 \<le> n \<Longrightarrow> ones (int n - 1) = Inr (replicate (n - 1) (Fin 1))"
  by (simp_all add: ones_def nat_diff_distrib')

lemma zeros_nat: "2 \<le> n \<Longrightarrow> zeros (int n - 2) = Inr (replicate (n - 2) (Fin 0))"
  by (simp add: zeros_def nat_diff_distrib')

lemma makea_returns:
  assumes "cb_n cb = n" "2 \<le> n" "i < ncols W" "length W = n"
    "i < length (g_s_wl_in cb)" "i < length (g_s_wl_out cb)"
  shows "\<exists>A. makea cb (T2 (transpose_mat W)) i = Inr A \<and> square n A"
proof -
  define g where "g = g_wl cb"
  have w: "index_row (T2 (transpose_mat W)) (int i) = Inr (column W i)"
    using assms(3) by (simp add: getv_nat nrows_transpose [unfolded nrows_def] transpose_row)
  have n0: "0 < n" using assms(2) by simp
  have s0: "square n (diag (column W i))"
    using assms(4) n0 by (intro square_diag) simp_all
  have s1: "square n (diag ([g] @ map (\<lambda>x. g * Fin 2 * x) (replicate (n - 2) (Fin 1)) @ [g]))"
    using assms(2) by (intro square_diag) simp_all
  have s2: "square n (diag_k (map (\<lambda>x. g * Fin (- 1) * x) (replicate (n - 1) (Fin 1))) 1)"
    using assms(2) by (intro square_diag_k) simp_all
  have s3: "square n (diag_k (map (\<lambda>x. g * Fin (- 1) * x) (replicate (n - 1) (Fin 1))) (- 1))"
    using assms(2) by (intro square_diag_k) simp_all
  have s4: "square n (diag ([g_s_wl_in cb ! i] @ replicate (n - 2) (Fin 0) @ [g_s_wl_out cb ! i]))"
    using assms(2) by (intro square_diag) simp_all
  from mat_add_square [OF s0 s1 n0] obtain a1 where
    a1: "mat_add (diag (column W i))
           (diag ([g] @ map (\<lambda>x. g * Fin 2 * x) (replicate (n - 2) (Fin 1)) @ [g])) = Inr a1"
      "square n a1" by blast
  from mat_add_square [OF a1(2) s2 n0] obtain a2 where
    a2: "mat_add a1 (diag_k (map (\<lambda>x. g * Fin (- 1) * x) (replicate (n - 1) (Fin 1))) 1) = Inr a2"
      "square n a2" by blast
  from mat_add_square [OF a2(2) s3 n0] obtain a3 where
    a3: "mat_add a2 (diag_k (map (\<lambda>x. g * Fin (- 1) * x) (replicate (n - 1) (Fin 1))) (- 1)) = Inr a3"
      "square n a3" by blast
  from mat_add_square [OF a3(2) s4 n0] obtain a4 where
    a4: "mat_add a3
           (diag ([g_s_wl_in cb ! i] @ replicate (n - 2) (Fin 0) @ [g_s_wl_out cb ! i])) = Inr a4"
      "square n a4" by blast
  have "makea cb (T2 (transpose_mat W)) i = Inr a4"
    unfolding makea_def Let_def assms(1) g_def [symmetric]
    using w assms(2,5,6) a1(1) a2(1) a3(1) a4(1)
    by (simp add: ones_nat zeros_nat getv_nat del: index_row.simps)
  with a4(2) show ?thesis by blast
qed

lemma emap_returns:
  assumes "\<And>x. x \<in> set xs \<Longrightarrow> \<exists>y. f x = Inr y"
  shows "\<exists>ys. emap f xs = Inr ys"
  using assms
proof (induction xs)
  case Nil then show ?case by simp
next
  case (Cons x xs)
  then obtain y ys where "f x = Inr y" "emap f xs = Inr ys" by (meson list.set_intros)
  then show ?case by simp
qed

lemma emap_cong:
  assumes "\<And>x. x \<in> set xs \<Longrightarrow> f x = g x"
  shows "emap f xs = emap g xs"
  using assms by (induction xs) (auto split: sum.splits)

lemma emap_append_error:
  assumes "emap f xs = Inr ys" "f x = Inl e"
  shows "emap f (xs @ x # zs) = Inl e"
  using assms by (induction xs arbitrary: ys) (auto split: sum.splits)

lemma emap_first_error:
  assumes "\<And>i. i < k \<Longrightarrow> \<exists>y. f i = Inr y" "f k = Inl e" "k < m"
  shows "emap f [0..<m] = Inl e"
proof -
  have "\<exists>ys. emap f [0..<k] = Inr ys" using assms(1) by (intro emap_returns) simp
  then obtain ys where ys: "emap f [0..<k] = Inr ys" ..
  have "[0..<m] = [0..<k] @ [k..<m]"
    using assms(3) upt_add_eq_append [of 0 k "m - k"] by simp
  moreover have "[k..<m] = k # [Suc k..<m]"
    using assms(3) by (rule upt_conv_Cons)
  ultimately have "[0..<m] = [0..<k] @ k # [Suc k..<m]" by simp
  then show ?thesis using emap_append_error [OF ys assms(2)] by simp
qed

lemma getv_out_of_range: "length xs \<le> i \<Longrightarrow> getv xs (int i) = Inl IndexError"
  by (simp add: getv_def py_index_def)

lemma make_A_returns:
  assumes "geometry n m cb" "2 \<le> n" "rect n c W" "m \<le> c"
  shows "\<exists>A. make_A cb (T2 W) = Inr A"
proof -
  have g: "cb_n cb = n" "cb_m cb = m" "length (g_s_wl_in cb) = m" "length (g_s_wl_out cb) = m"
    using assms(1) by (simp_all add: geometry_def)
  have len: "length W = n" using assms(3) by (simp add: rect_def)
  have nc: "ncols W = c" using rect_ncols [OF assms(3)] assms(2) by simp
  have "\<exists>A. makea cb (T2 (transpose_mat W)) i = Inr A" if "i < m" for i
    using makea_returns [of cb n i W] g assms(2,4) len nc that by auto
  then have "\<exists>bs. emap (makea cb (T2 (transpose_mat W))) [0..<m] = Inr bs"
    by (intro emap_returns) simp
  then show ?thesis by (auto simp: make_A_def g)
qed

lemma make_B_returns:
  assumes "geometry n m cb" "0 < n" "rect n c W" "m \<le> c"
  shows "\<exists>B. make_B cb (T2 W) = Inr B"
proof -
  have g: "cb_m cb = m" using assms(1) by (simp add: geometry_def)
  have nc: "ncols W = c" using rect_ncols [OF assms(3)] assms(2) by simp
  have "\<exists>B. ebind (index_row (torch_t (T2 W)) (int i)) (\<lambda>w. Inr (mat_neg (diag w))) = Inr B"
    if "i < m" for i
    using that assms(4) nc by (simp add: getv_nat nrows_transpose [unfolded nrows_def])
  then have "\<exists>bs. emap (\<lambda>i. ebind (index_row (torch_t (T2 W)) (int i))
      (\<lambda>w. Inr (mat_neg (diag w)))) [0..<m] = Inr bs"
    by (intro emap_returns) simp
  then show ?thesis by (auto simp: make_B_def g)
qed

lemma make_C_wide_matrix:
  assumes "geometry n m cb" "0 < n" "1 \<le> m" "rect n (Suc m) W"
  shows "make_C_assembled cb (T2 W) = Inl RuntimeError_size_mismatch"
proof -
  have g: "cb_n cb = n" "cb_m cb = m" using assms(1) by (simp_all add: geometry_def)
  have len: "length W = n" using assms(4) by (simp add: rect_def)
  have nc: "ncols W = Suc m" using rect_ncols [OF assms(4)] assms(2) by simp
  have nct: "ncols (transpose_mat W) = n" using ncols_transpose [of W] nc len by simp
  have col: "index_col (T2 (transpose_mat W)) (int 0) = Inr (column (transpose_mat W) 0)"
    using nct assms(2) by (simp add: py_index_def)
  have lc: "length (column (transpose_mat W) 0) = Suc m"
    using nc by (simp add: nrows_transpose [unfolded nrows_def])
  have "makec cb (T2 (transpose_mat W)) 0 = Inl RuntimeError_size_mismatch"
    unfolding makec_def Let_def g using col lc assms(3)
    by (simp add: index_put_def del: index_col.simps)
  moreover have "[0..<n] = 0 # [1..<n]" using assms(2) by (simp add: upt_conv_Cons)
  ultimately show ?thesis by (simp add: make_C_assembled_def g)
qed

lemma init_geometry:
  assumes "init lib model params w xp = Inr cb" "rect n m w" "0 < n"
  shows "geometry n m cb"
proof -
  have "ncols w = m" "nrows w = n"
    using rect_ncols [OF assms(2,3)] assms(2) by (simp_all add: rect_def nrows_def)
  then show ?thesis
    using assms(1) unfolding init_def ebind_Inr_iff
    by (auto simp: Let_def geometry_def split: if_splits)
qed

lemma cat0_returns:
  assumes "bs \<noteq> []" "\<And>B. B \<in> set bs \<Longrightarrow> ncols B = c"
  shows "cat0 bs = Inr (concat bs)"
proof -
  have "ncols (hd bs) = c" using assms by simp
  then show ?thesis using assms by (simp add: cat0_def list_all_iff)
qed

lemma e_b_piece_returns:
  assumes "geometry n m cb" "2 \<le> n" "i < n"
  shows "\<exists>p. e_b_piece cb i = Inr p \<and> ncols p = 1"
proof -
  have g: "cb_n cb = n" "length (v_bl_in cb) = n" "length (g_s_bl_in cb) = n"
    "length (g_s_bl_out cb) = n"
    using assms(1) by (simp_all add: geometry_def)
  show ?thesis
    using assms(2,3) by (simp add: e_b_piece_def g getv_nat zeros_nat unsqueeze1_def ncols_def)
qed

lemma e_b_piece_error:
  assumes "geometry n m cb" "n \<le> i"
  shows "e_b_piece cb i = Inl IndexError"
proof -
  have "length (v_bl_in cb) = n" using assms(1) by (simp add: geometry_def)
  then show ?thesis using assms(2) by (simp add: e_b_piece_def getv_out_of_range)
qed

lemma e_w_piece_returns:
  assumes "geometry n m cb" "2 \<le> n" "i < m" "i < length v"
  shows "\<exists>p. e_w_piece cb v i = Inr p"
proof -
  have g: "cb_n cb = n" "length (g_s_wl_in cb) = m" "length (g_s_wl_out cb) = m"
    "length (v_wl_out cb) = m"
    using assms(1) by (simp_all add: geometry_def)
  show ?thesis
    using assms(2,3,4) by (simp add: e_w_piece_def g getv_nat zeros_nat)
qed

lemma e_w_piece_error: "length v \<le> i \<Longrightarrow> e_w_piece cb v i = Inl IndexError"
  by (simp add: e_w_piece_def getv_out_of_range)

lemma make_E_short_vector:
  assumes "geometry n m cb" "2 \<le> n" "length v < m"
  shows "make_E cb v = Inl IndexError"
proof (cases "m \<le> n")
  case False
  have "emap (e_b_piece cb) [0..<m] = Inl IndexError"
  proof (rule emap_first_error [where k = n])
    show "\<exists>y. e_b_piece cb i = Inr y" if "i < n" for i
      using e_b_piece_returns [OF assms(1,2) that] by blast
    show "e_b_piece cb n = Inl IndexError" using assms(1) by (rule e_b_piece_error) simp
    show "n < m" using False by simp
  qed
  moreover have "cb_m cb = m" using assms(1) by (simp add: geometry_def)
  ultimately show ?thesis by (simp add: make_E_def)
next
  case True
  have m: "cb_m cb = m" using assms(1) by (simp add: geometry_def)
  have "\<exists>bs. emap (e_b_piece cb) [0..<m] = Inr bs"
  proof (rule emap_returns)
    fix i assume "i \<in> set [0..<m]"
    then have "i < n" using True by simp
    from e_b_piece_returns [OF assms(1,2) this] show "\<exists>y. e_b_piece cb i = Inr y" by blast
  qed
  then obtain bs where bs: "emap (e_b_piece cb) [0..<m] = Inr bs" ..
  have lbs: "length bs = m" using emap_length [OF bs] by simp
  have "ncols B = 1" if "B \<in> set bs" for B
  proof -
    from that obtain i where i: "i < m" "B = bs ! i"
      using lbs by (auto simp: in_set_conv_nth)
    have "e_b_piece cb ([0..<m] ! i) = Inr (bs ! i)"
      using bs i(1) by (intro emap_nth) simp_all
    moreover have "i < n" using i(1) True by simp
    ultimately show ?thesis
      using e_b_piece_returns [OF assms(1,2), of i] i by auto
  qed
  moreover have "bs \<noteq> []" using lbs assms(3) by auto
  ultimately have c: "cat0 bs = Inr (concat bs)" by (intro cat0_returns)
  have "emap (e_w_piece cb v) [0..<m] = Inl IndexError"
  proof (rule emap_first_error [where k = "length v"])
    show "\<exists>y. e_w_piece cb v i = Inr y" if "i < length v" for i
      using e_w_piece_returns [OF assms(1,2) _ that] that assms(3) by simp
    show "e_w_piece cb v (length v) = Inl IndexError" by (rule e_w_piece_error) simp
    show "length v < m" by (rule assms(3))
  qed
  with bs c show ?thesis by (simp add: make_E_def m)
qed

lemma make_E_long_vector:
  assumes "cb_m cb \<le> length v"
  shows "make_E cb (v @ extra) = make_E cb v"
proof -
  have "emap (e_w_piece cb (v @ extra)) [0..<cb_m cb] = emap (e_w_piece cb v) [0..<cb_m cb]"
  proof (rule emap_cong)
    fix i assume "i \<in> set [0..<cb_m cb]"
    then have "i < length v" using assms by simp
    then have "getv (v @ extra) (int i) = getv v (int i)"
      by (simp add: getv_nat nth_append)
    then show "e_w_piece cb (v @ extra) i = e_w_piece cb v i"
      by (simp add: e_w_piece_def)
  qed
  then show ?thesis by (simp add: make_E_def)
qed

text \<open>
  C7, as the code has it. The builder has no shape check of its own; which torch
  operation raises depends on the malformation. For a crossbar whose vectors of terminal
  conductances and biases fit its geometry \<open>(n, m)\<close>, with at least two rows and one
  column: given a conductance matrix of shape \<open>(n, m + 1)\<close>, \<open>make_A\<close> and \<open>make_B\<close>
  build their blocks, \<open>make_C\<close> raises the shape mismatch of \<open>index_put\<close>, and \<open>solve_v\<close>
  ends with that exception, before any concatenation or inverse; given a voltage vector
  shorter than \<open>m\<close>, \<open>make_E\<close> raises an \<open>IndexError\<close>; and \<open>make_E\<close> reads only the
  first \<open>m\<close> entries of a voltage vector, so entries beyond them change nothing.
\<close>

theorem malformed_shapes:
  assumes "geometry n m cb" and "2 \<le> n" and "1 \<le> m"
    and "rect n (Suc m) W" and "length short < m" and "m \<le> length v"
  shows "(\<exists>A. make_A cb (T2 W) = Inr A) \<and> (\<exists>B. make_B cb (T2 W) = Inr B)
       \<and> make_C cb (T2 W) = Inl RuntimeError_size_mismatch
       \<and> solve_v tinv cb (T2 W) u = Inl RuntimeError_size_mismatch
       \<and> make_E cb short = Inl IndexError
       \<and> make_E cb (v @ extra) = make_E cb v"
proof -
  have n0: "0 < n" using assms(2) by simp
  obtain A where A: "make_A cb (T2 W) = Inr A"
    using make_A_returns [OF assms(1,2,4)] by auto
  obtain B where B: "make_B cb (T2 W) = Inr B"
    using make_B_returns [OF assms(1) n0 assms(4)] by auto
  have C: "make_C cb (T2 W) = Inl RuntimeError_size_mismatch"
    using make_C_wide_matrix [OF assms(1) n0 assms(3,4)] by (simp add: make_C_def)
  have S: "solve_v tinv cb (T2 W) u = Inl RuntimeError_size_mismatch"
    by (simp add: solve_v_def A B C)
  have E1: "make_E cb short = Inl IndexError"
    using assms(1,2,5) by (rule make_E_short_vector)
  have "cb_m cb = m" using assms(1) by (simp add: geometry_def)
  then have E2: "make_E cb (v @ extra) = make_E cb v"
    using assms(6) by (intro make_E_long_vector) simp
  from A B C S E1 E2 show ?thesis by blast
qed

theorem malformed_shapes_witness:
  "geometry 2 2 (example_crossbar unit_params W22) \<and> rect 2 3 W23
   \<and> make_C (example_crossbar unit_params W22) (T2 W23) = Inl RuntimeError_size_mismatch
   \<and> solve_v (\<lambda>M. Inr M) (example_crossbar unit_params W22) (T2 W23) [Fin 1, Fin 1] =
       Inl RuntimeError_size_mismatch
   \<and> make_E (example_crossbar unit_params W22) [Fin 1] = Inl IndexError
   \<and> make_E (example_crossbar unit_params W22) ([Fin 1, Fin 1] @ [Fin 9]) =
       make_E (example_crossbar unit_params W22) [Fin 1, Fin 1]"
proof -
  have p: "param_r_wl unit_params \<noteq> 0" "param_r_bl unit_params \<noteq> 0"
    by (simp_all add: unit_params_def)
  have r: "rect 2 2 W22" "rect 2 (Suc 2) W23" by code_simp+
  have g: "geometry 2 2 (example_crossbar unit_params W22)"
    using init_example [OF p] r(1) by (rule init_geometry) simp
  from malformed_shapes [OF g _ _ r(2), of "[Fin 1]" "[Fin 1, Fin 1]" "\<lambda>M. Inr M"
      "[Fin 1, Fin 1]" "[Fin 9]"] g r
  show ?thesis by (simp add: numeral_3_eq_3)
qed

text \<open>
  C7 fails for a voltage vector that is too long. On the 2 \<times> 2 example with a vector
  of length 3, \<open>make_E\<close> raises nothing and returns the right-hand side of the first two
  entries, and \<open>solve_v\<close> ends with the \<open>TypeError\<close> of the block that \<open>make_C\<close> does not
  return, as it does for a vector of length 2: the wrong length is not detected.
\<close>

theorem long_vector_accepted:
  "cb_m (example_crossbar unit_params W22) = 2
   \<and> make_E (example_crossbar unit_params W22) [Fin 5, Fin 7, Fin 9] =
       Inr [[Fin 5], [Fin 0], [Fin 7], [Fin 0], [Fin 0], [Fin 0], [Fin 0], [Fin 0]]
   \<and> solve_v (\<lambda>M. Inr M) (example_crossbar unit_params W22) (T2 W22) [Fin 5, Fin 7, Fin 9] =
       Inl TypeError_none_not_tensor
   \<and> solve_v (\<lambda>M. Inr M) (example_crossbar unit_params W22) (T2 W22) [Fin 5, Fin 7] =
       Inl TypeError_none_not_tensor"
proof (intro conjI)
  have "map_sum id fst (solve_v (\<lambda>M. Inr M) (example_crossbar unit_params W22) (T2 W22)
        [Fin 5, Fin 7, Fin 9]) = Inl TypeError_none_not_tensor"
    by code_simp
  then show "solve_v (\<lambda>M. Inr M) (example_crossbar unit_params W22) (T2 W22)
      [Fin 5, Fin 7, Fin 9] = Inl TypeError_none_not_tensor"
    by (rule Inl_of_map_sum)
  have "map_sum id fst (solve_v (\<lambda>M. Inr M) (example_crossbar unit_params W22) (T2 W22)
        [Fin 5, Fin 7]) = Inl TypeError_none_not_tensor"
    by code_simp
  then show "solve_v (\<lambda>M. Inr M) (example_crossbar unit_params W22) (T2 W22)
      [Fin 5, Fin 7] = Inl TypeError_none_not_tensor"
    by (rule Inl_of_map_sum)
qed code_simp+

section \<open>The coupling blocks\<close>

lemma blocks_at_length:
  assumes "\<And>B. B \<in> set Bs \<Longrightarrow> length B = n"
  shows "length (blocks_at off tot Bs) = length Bs * n"
  using assms by (induction Bs arbitrary: off) simp_all

lemma blocks_at_row:
  assumes "\<And>B. B \<in> set Bs \<Longrightarrow> square n B" "i < length Bs" "a < n"
  shows "blocks_at off tot Bs ! (i * n + a) =
    replicate (off + i * n) (Fin 0) @ Bs ! i ! a @ replicate (tot - (off + i * n) - n) (Fin 0)"
  using assms
proof (induction Bs arbitrary: off i)
  case Nil then show ?case by simp
next
  case (Cons B Bs)
  have B: "length B = n" "ncols B = n" using Cons.prems(1) [of B] by (simp_all add: square_def nrows_def)
  show ?case
  proof (cases i)
    case 0
    then show ?thesis using B Cons.prems(3) by (simp add: nth_append)
  next
    case (Suc i')
    have "blocks_at (off + n) tot Bs ! (i' * n + a) =
      replicate (off + n + i' * n) (Fin 0) @ Bs ! i' ! a
        @ replicate (tot - (off + n + i' * n) - n) (Fin 0)"
      using Cons.prems Suc by (intro Cons.IH) simp_all
    then show ?thesis using B Suc by (simp add: nth_append add.assoc add.commute add.left_commute)
  qed
qed

lemma padded_nth:
  "q < a + length r + b \<Longrightarrow>
   (replicate a (Fin 0) @ r @ replicate b (Fin 0)) ! q =
     (if a \<le> q \<and> q < a + length r then r ! (q - a) else Fin 0)"
  by (auto simp: nth_append)

lemma diag_nth:
  "a < length v \<Longrightarrow> b < length v \<Longrightarrow> diag v ! a ! b = (if a = b then v ! a else Fin 0)"
  by (auto simp: diag_def diag_k_def Let_def)

lemma length_diag [simp]: "length (diag v) = length v"
  by (simp add: diag_def diag_k_def Let_def)

lemma length_diag_row [simp]: "a < length v \<Longrightarrow> length (diag v ! a) = length v"
  by (simp add: diag_def diag_k_def Let_def)

lemma square_mat_neg: "square n A \<Longrightarrow> square n (mat_neg A)"
  by (cases A) (simp_all add: square_def mat_neg_def nrows_def ncols_def)

lemma concat_nth_uniform:
  assumes "\<And>b. b \<in> set bs \<Longrightarrow> length b = m" "j < length bs" "i < m"
  shows "concat bs ! (j * m + i) = bs ! j ! i"
  using assms
proof (induction bs arbitrary: j)
  case Nil then show ?case by simp
next
  case (Cons b bs)
  have b: "length b = m" using Cons.prems(1) by simp
  show ?case
  proof (cases j)
    case 0 then show ?thesis using b Cons.prems(3) by (simp add: nth_append)
  next
    case (Suc j')
    have "concat bs ! (j' * m + i) = bs ! j' ! i"
      using Cons.prems Suc by (intro Cons.IH) simp_all
    then show ?thesis using b Suc by (simp add: nth_append)
  qed
qed

lemma concat_length_uniform:
  assumes "\<And>b. b \<in> set bs \<Longrightarrow> length b = m"
  shows "length (concat bs) = length bs * m"
  using assms by (induction bs) simp_all

lemma rect_update:
  assumes "rect m L Z" "a < m"
  shows "rect m L (Z[a := (Z ! a)[c := x]])"
  using assms by (auto simp: rect_def list_all_length nth_list_update)

lemma put_rows:
  assumes "rect m L Z" "\<And>k. k < m \<Longrightarrow> f k < L" "a \<le> m"
  shows "put_all Z (map (\<lambda>k. (k, f k, x k)) [a..<m]) =
    Inr (map (\<lambda>k. if a \<le> k then (Z ! k)[f k := x k] else Z ! k) [0..<m])"
  using assms
proof (induction "m - a" arbitrary: a Z)
  case 0
  then have "a = m" by simp
  moreover have "length Z = m" using "0.prems"(1) by (simp add: rect_def)
  ultimately show ?case by (simp add: list_eq_iff_nth_eq)
next
  case (Suc d)
  then have am: "a < m" by simp
  have len: "length Z = m" using Suc.prems(1) by (simp add: rect_def)
  have nc: "ncols Z = L" using rect_ncols [OF Suc.prems(1)] am by simp
  define Z1 where "Z1 = Z[a := (Z ! a)[f a := x a]]"
  have r1: "rect m L Z1" unfolding Z1_def using Suc.prems(1) am by (rule rect_update)
  have ih: "put_all Z1 (map (\<lambda>k. (k, f k, x k)) [Suc a..<m]) =
      Inr (map (\<lambda>k. if Suc a \<le> k then (Z1 ! k)[f k := x k] else Z1 ! k) [0..<m])"
    using Suc.hyps(2) r1 Suc.prems(2) am by (intro Suc.hyps(1)) simp_all
  have "map (\<lambda>k. if Suc a \<le> k then (Z1 ! k)[f k := x k] else Z1 ! k) [0..<m] =
      map (\<lambda>k. if a \<le> k then (Z ! k)[f k := x k] else Z ! k) [0..<m]"
  proof (rule map_cong [OF refl])
    fix k assume "k \<in> set [0..<m]"
    then have km: "k < m" by simp
    consider "k < a" | "k = a" | "a < k" by linarith
    then show "(if Suc a \<le> k then (Z1 ! k)[f k := x k] else Z1 ! k) =
        (if a \<le> k then (Z ! k)[f k := x k] else Z ! k)"
      using len am km by cases (simp_all add: Z1_def)
  qed
  moreover have "put_all Z (map (\<lambda>k. (k, f k, x k)) [a..<m]) =
      put_all Z1 (map (\<lambda>k. (k, f k, x k)) [Suc a..<m])"
    using am len nc Suc.prems(2) [OF am]
    by (simp add: upt_conv_Cons Z1_def nrows_def)
  ultimately show ?case using ih by simp
qed

lemma zip3_upt:
  "zip [0..<m] (zip (map f [0..<m]) (map x [0..<m])) = map (\<lambda>k. (k, f k, x k)) [0..<m]"
  by (simp add: list_eq_iff_nth_eq)

lemma rect_zeros2: "rect r c (zeros2 r c)"
  by (simp add: rect_def zeros2_def list_all_iff)

lemma makec_value:
  assumes "cb_n cb = n" "cb_m cb = m" "rect n m W" "0 < n" "0 < m" "j < n"
  shows "makec cb (T2 (transpose_mat W)) j =
    Inr (map (\<lambda>k. (replicate (m * n) (Fin 0))[k * n + j := W ! j ! k]) [0..<m])"
proof -
  have len: "length W = n" using assms(3) by (simp add: rect_def)
  have nc: "ncols W = m" using assms(3,4) by (rule rect_ncols)
  have nct: "ncols (transpose_mat W) = n" using ncols_transpose [of W] nc len assms(5) by simp
  have vals: "column (transpose_mat W) j = map (\<lambda>k. W ! j ! k) [0..<m]"
    using len assms(6) by (simp add: column_def transpose_mat_def nc)
  have col: "index_col (T2 (transpose_mat W)) (int j) = Inr (map (\<lambda>k. W ! j ! k) [0..<m])"
    using nct assms(6) vals by (simp add: py_index_def)
  have bound: "k * n + j < m * n" if "k < m" for k
  proof -
    have "k * n + j < k * n + n" using assms(6) by simp
    also have "\<dots> = Suc k * n" by simp
    also have "\<dots> \<le> m * n" using that by (intro mult_le_mono1) simp
    finally show ?thesis .
  qed
  have "put_all (zeros2 m (m * n))
      (map (\<lambda>k. (k, k * n + j, W ! j ! k)) [0..<m]) =
      Inr (map (\<lambda>k. if 0 \<le> k then (zeros2 m (m * n) ! k)[k * n + j := W ! j ! k]
                     else zeros2 m (m * n) ! k) [0..<m])"
    using rect_zeros2 bound by (intro put_rows) simp_all
  also have "\<dots> = Inr (map (\<lambda>k. (replicate (m * n) (Fin 0))[k * n + j := W ! j ! k]) [0..<m])"
    by (simp add: zeros2_def)
  finally show ?thesis
    unfolding makec_def Let_def assms(1,2) using col
    by (simp add: index_put_def zip3_upt del: index_col.simps)
qed

lemma cell_bound:
  assumes "i < m" "j < (n::nat)"
  shows "i * n + j < m * n"
proof -
  have "i * n + j < i * n + n" using assms(2) by simp
  also have "\<dots> = Suc i * n" by simp
  also have "\<dots> \<le> m * n" using assms(1) by (intro mult_le_mono1) simp
  finally show ?thesis .
qed

lemma make_C_assembled_value:
  assumes "cb_n cb = n" "cb_m cb = m" "rect n m W" "0 < n" "0 < m"
  shows "\<exists>C. make_C_assembled cb (T2 W) = Inr C \<and> rect (n * m) (m * n) C
      \<and> (\<forall>i<m. \<forall>j<n. \<forall>q<m * n.
            C ! (j * m + i) ! q = (if q = i * n + j then W ! j ! i else Fin 0))"
proof -
  define blk where
    "blk j = map (\<lambda>k. (replicate (m * n) (Fin 0))[k * n + j := W ! j ! k]) [0..<m]" for j
  define C where "C = concat (map blk [0..<n])"
  have "emap (makec cb (T2 (transpose_mat W))) [0..<n] = Inr (map blk [0..<n])"
    unfolding blk_def using assms by (intro emap_Inr_map makec_value) simp_all
  moreover have "cat0 (map blk [0..<n]) = Inr C"
    unfolding C_def
  proof (rule cat0_returns [where c = "m * n"])
    show "map blk [0..<n] \<noteq> []" using assms(4) by simp
    show "ncols B = m * n" if "B \<in> set (map blk [0..<n])" for B
      using that assms(5) by (auto simp: blk_def ncols_def upt_conv_Cons)
  qed
  ultimately have v: "make_C_assembled cb (T2 W) = Inr C"
    by (simp add: make_C_assembled_def assms(1))
  have lb: "length b = m" if "b \<in> set (map blk [0..<n])" for b
    using that by (auto simp: blk_def)
  have row: "C ! (j * m + i) = (replicate (m * n) (Fin 0))[i * n + j := W ! j ! i]"
    if "i < m" "j < n" for i j
  proof -
    have "C ! (j * m + i) = map blk [0..<n] ! j ! i"
      unfolding C_def using lb that by (intro concat_nth_uniform) simp_all
    then show ?thesis using that by (simp add: blk_def)
  qed
  have lc: "length C = n * m"
    unfolding C_def using concat_length_uniform [of "map blk [0..<n]" m] lb by simp
  have "length (C ! p) = m * n" if "p < n * m" for p
  proof -
    have p: "p = (p div m) * m + p mod m" by simp
    have "p div m < n" using that assms(5) by (simp add: less_mult_imp_div_less)
    moreover have "p mod m < m" using assms(5) by simp
    ultimately have "C ! ((p div m) * m + p mod m) =
        (replicate (m * n) (Fin 0))[(p mod m) * n + p div m := W ! (p div m) ! (p mod m)]"
      by (intro row)
    then show ?thesis using p by simp
  qed
  then have r: "rect (n * m) (m * n) C" using lc by (simp add: rect_def list_all_length)
  have e: "C ! (j * m + i) ! q = (if q = i * n + j then W ! j ! i else Fin 0)"
    if "i < m" "j < n" "q < m * n" for i j q
    using row [OF that(1,2)] that(3) cell_bound [OF that(1,2)]
    by (simp add: nth_list_update)
  from v r e show ?thesis by blast
qed

lemma sum_ncols_square:
  assumes "\<And>B. B \<in> set Bs \<Longrightarrow> square n B"
  shows "sum_list (map ncols Bs) = length Bs * n"
  using assms by (induction Bs) (simp_all add: square_def)

lemma make_B_value:
  assumes "cb_n cb = n" "cb_m cb = m" "rect n m W" "0 < n" "0 < m"
  shows "\<exists>B. make_B cb (T2 W) = Inr B \<and> rect (m * n) (m * n) B
      \<and> (\<forall>i<m. \<forall>j<n. \<forall>q<m * n.
            B ! (i * n + j) ! q = (if q = i * n + j then - (W ! j ! i) else Fin 0))"
proof -
  define blk where "blk i = mat_neg (diag (column W i))" for i
  define B where "B = block_diag (map blk [0..<m])"
  have len: "length W = n" using assms(3) by (simp add: rect_def)
  have nc: "ncols W = m" using assms(3,4) by (rule rect_ncols)
  have "ebind (index_row (torch_t (T2 W)) (int i)) (\<lambda>w. Inr (mat_neg (diag w))) = Inr (blk i)"
    if "i < m" for i
    using that nc
    by (simp add: blk_def getv_nat nrows_transpose [unfolded nrows_def] transpose_row)
  then have "emap (\<lambda>i. ebind (index_row (torch_t (T2 W)) (int i))
      (\<lambda>w. Inr (mat_neg (diag w)))) [0..<m] = Inr (map blk [0..<m])"
    by (intro emap_Inr_map) simp
  then have v: "make_B cb (T2 W) = Inr B"
    by (simp add: make_B_def assms(2) B_def)
  have sq: "square n b" if "b \<in> set (map blk [0..<m])" for b
    using that len assms(4) by (auto simp: blk_def intro!: square_mat_neg square_diag)
  have Bv: "B = blocks_at 0 (m * n) (map blk [0..<m])"
    using assms(5) sum_ncols_square [of "map blk [0..<m]" n] sq
    by (simp add: B_def block_diag_def)
  have blkrow: "blk i ! j = map (\<lambda>b. if j = b then - (W ! j ! i) else Fin 0) [0..<n]"
    if "i < m" "j < n" for i j
    using that len
    by (auto simp: blk_def mat_neg_def diag_def diag_k_def Let_def column_def)
  have row: "B ! (i * n + j) =
      replicate (i * n) (Fin 0) @ blk i ! j @ replicate (m * n - i * n - n) (Fin 0)"
    if "i < m" "j < n" for i j
    using blocks_at_row [of "map blk [0..<m]" n i j 0 "m * n"] sq that by (simp add: Bv)
  have lB: "length B = m * n"
    using blocks_at_length [of "map blk [0..<m]" n 0 "m * n"] sq
    by (simp add: Bv square_def nrows_def)
  have fit: "i * n + n \<le> m * n" if "i < m" for i
  proof -
    have "i * n + n = Suc i * n" by simp
    also have "\<dots> \<le> m * n" using that by (intro mult_le_mono1) simp
    finally show ?thesis .
  qed
  have "length (B ! p) = m * n" if "p < m * n" for p
  proof -
    have p: "p = (p div n) * n + p mod n" by simp
    have i: "p div n < m" using that assms(4) by (simp add: less_mult_imp_div_less mult.commute)
    have j: "p mod n < n" using assms(4) by simp
    have "length (B ! ((p div n) * n + p mod n)) = m * n"
      using row [OF i j] blkrow [OF i j] fit [OF i] by simp
    then show ?thesis using p by simp
  qed
  then have r: "rect (m * n) (m * n) B" using lB by (simp add: rect_def list_all_length)
  have e: "B ! (i * n + j) ! q = (if q = i * n + j then - (W ! j ! i) else Fin 0)"
    if "i < m" "j < n" "q < m * n" for i j q
  proof -
    have "B ! (i * n + j) ! q =
        (if i * n \<le> q \<and> q < i * n + length (blk i ! j) then blk i ! j ! (q - i * n) else Fin 0)"
      unfolding row [OF that(1,2)]
      using that(3) fit [OF that(1)] blkrow [OF that(1,2)] by (intro padded_nth) simp
    then show ?thesis using blkrow [OF that(1,2)] that(2) by auto
  qed
  from v r e show ?thesis by blast
qed

lemma uminus_zero_iff: "(- x = Fin 0) = (x = Fin 0)"
  by (cases x) simp_all

text \<open>
  C4, as the code has it. For a crossbar with \<open>n\<close> rows and \<open>m\<close> columns and an
  \<open>n \<times> m\<close> conductance matrix \<open>W\<close>, \<open>make_B\<close> returns an \<open>mn \<times> mn\<close> matrix and the
  expression in \<open>make_C\<close> has an \<open>nm \<times> mn\<close> matrix as its value. The device in row \<open>j\<close>
  and column \<open>i\<close> has one entry in each of the two: \<open>- W[j][i]\<close> on the diagonal of \<open>B\<close>,
  at \<open>(i n + j, i n + j)\<close>, and \<open>W[j][i]\<close> in the same column of the assembled block but
  in row \<open>j m + i\<close>; every other entry is zero. The assembled block is the structural
  transpose of \<open>B\<close> when the crossbar has a single row or a single column.
\<close>

theorem coupling_blocks:
  assumes "cb_n cb = n" and "cb_m cb = m" and "rect n m W" and "0 < n" and "0 < m"
  shows "\<exists>B C. make_B cb (T2 W) = Inr B \<and> make_C_assembled cb (T2 W) = Inr C
      \<and> rect (m * n) (m * n) B \<and> rect (n * m) (m * n) C
      \<and> (\<forall>i<m. \<forall>j<n. \<forall>q<m * n.
            B ! (i * n + j) ! q = (if q = i * n + j then - (W ! j ! i) else Fin 0))
      \<and> (\<forall>i<m. \<forall>j<n. \<forall>q<m * n.
            C ! (j * m + i) ! q = (if q = i * n + j then W ! j ! i else Fin 0))
      \<and> (n = 1 \<or> m = 1 \<longrightarrow> structural_transpose B C)"
proof -
  from make_B_value [OF assms] obtain B where
    B: "make_B cb (T2 W) = Inr B" "rect (m * n) (m * n) B"
    and Be: "\<And>i j q. i < m \<Longrightarrow> j < n \<Longrightarrow> q < m * n \<Longrightarrow>
      B ! (i * n + j) ! q = (if q = i * n + j then - (W ! j ! i) else Fin 0)"
    by blast
  from make_C_assembled_value [OF assms] obtain C where
    C: "make_C_assembled cb (T2 W) = Inr C" "rect (n * m) (m * n) C"
    and Ce: "\<And>i j q. i < m \<Longrightarrow> j < n \<Longrightarrow> q < m * n \<Longrightarrow>
      C ! (j * m + i) ! q = (if q = i * n + j then W ! j ! i else Fin 0)"
    by blast
  have pos: "0 < m * n" using assms(4,5) by simp
  have shape: "nrows B = m * n" "ncols B = m * n" "nrows C = m * n" "ncols C = m * n"
    using B(2) C(2) rect_ncols [OF B(2) pos] rect_ncols [of "n * m" "m * n" C] pos
    by (simp_all add: rect_def nrows_def mult.commute)
  have st: "structural_transpose B C" if "n = 1 \<or> m = 1"
  proof -
    have "(B ! p ! q \<noteq> Fin 0) = (C ! q ! p \<noteq> Fin 0)" if pq: "p < m * n" "q < m * n" for p q
      using \<open>n = 1 \<or> m = 1\<close>
    proof
      assume n: "n = 1"
      have "B ! (p * n + 0) ! q = (if q = p * n + 0 then - (W ! 0 ! p) else Fin 0)"
        using pq n by (intro Be) simp_all
      moreover have "C ! (0 * m + q) ! p = (if p = q * n + 0 then W ! 0 ! q else Fin 0)"
        using pq n by (intro Ce) simp_all
      ultimately show ?thesis using n by (auto simp: uminus_zero_iff)
    next
      assume m: "m = 1"
      have "B ! (0 * n + p) ! q = (if q = 0 * n + p then - (W ! p ! 0) else Fin 0)"
        using pq m by (intro Be) simp_all
      moreover have "C ! (q * m + 0) ! p = (if p = 0 * n + q then W ! q ! 0 else Fin 0)"
        using pq m by (intro Ce) simp_all
      ultimately show ?thesis using m by (auto simp: uminus_zero_iff)
    qed
    then show ?thesis by (simp add: structural_transpose_def shape list_all_iff)
  qed
  from B C Be Ce st show ?thesis by blast
qed

theorem coupling_blocks_witness:
  "cb_n (example_crossbar unit_params W22) = 2 \<and> cb_m (example_crossbar unit_params W22) = 2
   \<and> rect 2 2 W22
   \<and> (\<exists>B C. make_B (example_crossbar unit_params W22) (T2 W22) = Inr B
         \<and> make_C_assembled (example_crossbar unit_params W22) (T2 W22) = Inr C
         \<and> B ! 1 ! 1 = Fin (- 3) \<and> C ! 2 ! 1 = Fin 3 \<and> C ! 2 ! 2 = Fin 0)"
proof -
  have g: "cb_n (example_crossbar unit_params W22) = 2"
    "cb_m (example_crossbar unit_params W22) = 2"
    by code_simp+
  have r: "rect 2 2 W22" by code_simp
  from coupling_blocks [OF g r] obtain B C where
    v: "make_B (example_crossbar unit_params W22) (T2 W22) = Inr B"
      "make_C_assembled (example_crossbar unit_params W22) (T2 W22) = Inr C"
    and Be: "\<forall>i<2. \<forall>j<2. \<forall>q<2 * 2.
      B ! (i * 2 + j) ! q = (if q = i * 2 + j then - (W22 ! j ! i) else Fin 0)"
    and Ce: "\<forall>i<2. \<forall>j<2. \<forall>q<2 * 2.
      C ! (j * 2 + i) ! q = (if q = i * 2 + j then W22 ! j ! i else Fin 0)"
    by auto
  have "B ! (0 * 2 + 1) ! 1 = (if (1::nat) = 0 * 2 + 1 then - (W22 ! 1 ! 0) else Fin 0)"
    using Be [rule_format, of 0 1 1] by simp
  moreover have "C ! (1 * 2 + 0) ! 1 = (if (1::nat) = 0 * 2 + 1 then W22 ! 1 ! 0 else Fin 0)"
    "C ! (1 * 2 + 0) ! 2 = (if (2::nat) = 0 * 2 + 1 then W22 ! 1 ! 0 else Fin 0)"
    using Ce [rule_format, of 0 1 1] Ce [rule_format, of 0 1 2] by simp_all
  ultimately have "B ! 1 ! 1 = Fin (- 3)" "C ! 2 ! 1 = Fin 3" "C ! 2 ! 2 = Fin 0"
    by (simp_all add: W22_def)
  with v g r show ?thesis by blast
qed

text \<open>
  C4 fails on the 2 \<times> 2 example: the entry \<open>(1, 1)\<close> of \<open>B\<close> is \<open>-3\<close> while the entry
  \<open>(1, 1)\<close> of the assembled block is zero, and its entry \<open>(1, 2)\<close> is \<open>2\<close> while the entry
  \<open>(2, 1)\<close> of \<open>B\<close> is zero. (And \<open>make_C\<close> returns \<open>None\<close>, not the assembled block.)
\<close>

theorem coupling_not_transposed:
  "make_B (example_crossbar unit_params W22) (T2 W22) =
     Inr [[Fin (- 1), Fin 0, Fin 0, Fin 0], [Fin 0, Fin (- 3), Fin 0, Fin 0],
          [Fin 0, Fin 0, Fin (- 2), Fin 0], [Fin 0, Fin 0, Fin 0, Fin (- 4)]]
   \<and> make_C_assembled (example_crossbar unit_params W22) (T2 W22) =
       Inr [[Fin 1, Fin 0, Fin 0, Fin 0], [Fin 0, Fin 0, Fin 2, Fin 0],
            [Fin 0, Fin 3, Fin 0, Fin 0], [Fin 0, Fin 0, Fin 0, Fin 4]]
   \<and> \<not> structural_transpose
         [[Fin (- 1), Fin 0, Fin 0, Fin 0], [Fin 0, Fin (- 3), Fin 0, Fin 0],
          [Fin 0, Fin 0, Fin (- 2), Fin 0], [Fin 0, Fin 0, Fin 0, Fin (- 4)]]
         [[Fin 1, Fin 0, Fin 0, Fin 0], [Fin 0, Fin 0, Fin 2, Fin 0],
          [Fin 0, Fin 3, Fin 0, Fin 0], [Fin 0, Fin 0, Fin 0, Fin 4]]
   \<and> make_C (example_crossbar unit_params W22) (T2 W22) = Inr None"
  by code_simp

section \<open>Linearity of the multiplies without line resistance\<close>





end
